theory Spec2Isabelle
  imports Main "HOL-Library.Sublist" "HOL-Library.List_Lexorder" "HOL-Library.Word"
begin

section \<open>Python values\<close>

text \<open>
  A Python \<open>str\<close> is a sequence of Unicode code points and is compared code point by
  code point, a shorter prefix first: it is the list of the integers \<open>ord c\<close> of its
  characters under the lexicographic order. A \<open>bytes\<close> object is a list of octets.
  String literals of the source are written \<open>lit ''...''\<close>.
\<close>

type_synonym str = "int list"
type_synonym bytes = "8 word list"

definition lit :: "string \<Rightarrow> str" where
  "lit s = map of_char s"

definition blit :: "string \<Rightarrow> bytes" where
  "blit s = map (\<lambda>c. of_nat (of_char c)) s"

text \<open>
  The exceptions the replay module can meet. The first group is raised by the builtins
  the module calls; \<open>IpfsTimeoutError\<close> is \<open>ipfsapi.exceptions.TimeoutError\<close>,
  \<open>HashNotFoundError\<close> the class local to \<open>show_uri\<close>, \<open>OtherException\<close> any other
  exception of the content store client.
\<close>

datatype exn =
    ValueError | IndexError | TypeError | KeyError | AttributeError | NameError
  | UnicodeDecodeError | UnicodeEncodeError | EOFError
  | IpfsTimeoutError | HTTPError | HashNotFoundError | OtherException
  | IPFSDaemonNotAvailable

text \<open>
  The Unicode character database is part of the Python runtime, not of the source. The
  behaviour on ASCII is written out below; for the other code points the two tables the
  module depends on are a parameter: the decimal digit value (\<open>int\<close>, \<open>\d\<close>) and the
  alphanumeric property (\<open>\w\<close>, \<open>\b\<close>).
\<close>

record ucd =
  decimal :: "int \<Rightarrow> nat option"
  alnum :: "int \<Rightarrow> bool"

definition ascii_ucd :: ucd where
  "ascii_ucd = \<lparr>decimal = (\<lambda>_. None), alnum = (\<lambda>_. False)\<rparr>"

subsection \<open>Whitespace and \<open>str.strip\<close>\<close>

text \<open>The code points above ASCII for which \<open>str.isspace\<close> holds.\<close>

definition unicode_space :: "int \<Rightarrow> bool" where
  "unicode_space c \<longleftrightarrow>
     c = 0x85 \<or> c = 0xA0 \<or> c = 0x1680 \<or> (0x2000 \<le> c \<and> c \<le> 0x200A) \<or>
     c = 0x2028 \<or> c = 0x2029 \<or> c = 0x202F \<or> c = 0x205F \<or> c = 0x3000"

definition isspace :: "int \<Rightarrow> bool" where
  "isspace c \<longleftrightarrow> (9 \<le> c \<and> c \<le> 13) \<or> (28 \<le> c \<and> c \<le> 32) \<or> unicode_space c"

definition strip :: "str \<Rightarrow> str" where
  "strip s = rev (dropWhile isspace (rev (dropWhile isspace s)))"

subsection \<open>\<open>str.split\<close>, \<open>str.join\<close>, \<open>in\<close>, \<open>str.replace\<close>\<close>

text \<open>
  \<open>s.split(sep, maxsplit)\<close> for a separator of one character: \<open>split_max n sep s\<close>
  cuts at the first \<open>n\<close> separators. \<open>s.split(sep)\<close> cuts at every separator, and a
  string has at most \<open>length s\<close> of them.
\<close>

fun split_max :: "nat \<Rightarrow> 'a \<Rightarrow> 'a list \<Rightarrow> 'a list list" where
  "split_max 0 sep s = [s]"
| "split_max (Suc n) sep s =
     (if sep \<in> set s
      then takeWhile (\<lambda>c. c \<noteq> sep) s # split_max n sep (tl (dropWhile (\<lambda>c. c \<noteq> sep) s))
      else [s])"

definition split :: "'a \<Rightarrow> 'a list \<Rightarrow> 'a list list" where
  "split sep s = split_max (length s) sep s"

fun join :: "'a list \<Rightarrow> 'a list list \<Rightarrow> 'a list" where
  "join sep [] = []"
| "join sep [x] = x"
| "join sep (x # y # ys) = x @ sep @ join sep (y # ys)"

text \<open>\<open>old in s\<close> is \<open>sublist old s\<close>. \<open>s.replace(old, new)\<close> replaces the
  occurrences of \<open>old\<close> from the left, none overlapping another.\<close>

function replace :: "'a list \<Rightarrow> 'a list \<Rightarrow> 'a list \<Rightarrow> 'a list" where
  "replace old new [] = (if old = [] then new else [])"
| "replace old new (x # xs) =
     (if old = [] then new @ x # replace old new xs
      else if prefix old (x # xs) then new @ replace old new (drop (length old) (x # xs))
      else x # replace old new xs)"
  by pat_completeness auto
termination
  by (relation "measure (\<lambda>(old, new, s). length s)") auto

subsection \<open>\<open>int(s)\<close> and \<open>int(s, 16)\<close>\<close>

text \<open>
  \<open>int\<close> skips white space at both ends (the ASCII characters 9 to 13 and 32, and the
  Unicode spaces above ASCII), reads one optional sign, for base 16 an optional
  \<open>0x\<close> prefix that one underscore may follow, and then digits in which single
  underscores may separate digits. Anything else is a \<open>ValueError\<close>.
\<close>

definition int_space :: "int \<Rightarrow> bool" where
  "int_space c \<longleftrightarrow> (9 \<le> c \<and> c \<le> 13) \<or> c = 32 \<or> unicode_space c"

definition digit_value :: "ucd \<Rightarrow> int \<Rightarrow> nat option" where
  "digit_value db c =
     (if 48 \<le> c \<and> c \<le> 57 then Some (nat (c - 48))
      else if 97 \<le> c \<and> c \<le> 122 then Some (nat (c - 87))
      else if 65 \<le> c \<and> c \<le> 90 then Some (nat (c - 55))
      else if 127 \<le> c \<and> \<not> unicode_space c then
        (case decimal db c of Some d \<Rightarrow> if d < 10 then Some d else None | None \<Rightarrow> None)
      else None)"

definition is_digit :: "ucd \<Rightarrow> nat \<Rightarrow> int \<Rightarrow> bool" where
  "is_digit db base c = (case digit_value db c of Some d \<Rightarrow> d < base | None \<Rightarrow> False)"

fun double_underscore :: "str \<Rightarrow> bool" where
  "double_underscore (a # b # cs) = ((a = 95 \<and> b = 95) \<or> double_underscore (b # cs))"
| "double_underscore _ = False"

definition digits_value :: "ucd \<Rightarrow> nat \<Rightarrow> str \<Rightarrow> int" where
  "digits_value db base ds =
     foldl (\<lambda>acc c. acc * int base + int (the (digit_value db c))) 0
       (filter (\<lambda>c. c \<noteq> 95) ds)"

definition py_int :: "ucd \<Rightarrow> nat \<Rightarrow> str \<Rightarrow> exn + int" where
  "py_int db base s =
     (let s1 = dropWhile int_space s;
          neg = (s1 \<noteq> [] \<and> hd s1 = 45);
          s2 = (if s1 \<noteq> [] \<and> (hd s1 = 43 \<or> hd s1 = 45) then tl s1 else s1);
          s3 = (if base = 16 \<and> 2 \<le> length s2 \<and> hd s2 = 48 \<and> (s2 ! 1 = 120 \<or> s2 ! 1 = 88)
                then (let r = drop 2 s2 in if r \<noteq> [] \<and> hd r = 95 then tl r else r)
                else s2);
          body = takeWhile (\<lambda>c. is_digit db base c \<or> c = 95) s3;
          rest = dropWhile (\<lambda>c. is_digit db base c \<or> c = 95) s3
      in if body = [] \<or> hd body = 95 \<or> last body = 95 \<or> double_underscore body
            \<or> \<not> list_all int_space rest
         then Inl ValueError
         else Inr ((if neg then - 1 else 1) * digits_value db base body))"

section \<open>Nearest capture: \<open>get_cdxj_line_closest_to\<close>\<close>

text \<open>
  \<open>cdxj_line.split(' ')[1]\<close> raises \<open>IndexError\<close> on a line without a space, and
  \<open>int\<close> raises \<open>ValueError\<close> on a field that is no number.
\<close>

definition line_datetime :: "ucd \<Rightarrow> str \<Rightarrow> exn + int" where
  "line_datetime db cdxj_line =
     (case split 32 cdxj_line of
        _ # f # _ \<Rightarrow> py_int db 10 f
      | _ \<Rightarrow> Inl IndexError)"

text \<open>
  The loop of \<open>get_cdxj_line_closest_to\<close>. \<open>smallest_diff\<close> starts as
  \<open>float('inf')\<close>, above every integer: it is \<open>None\<close> until the first line is read.
\<close>

fun closest_loop :: "ucd \<Rightarrow> int \<Rightarrow> int option \<Rightarrow> str option \<Rightarrow> str list \<Rightarrow> exn + str option" where
  "closest_loop db target smallest_diff best_line [] = Inr best_line"
| "closest_loop db target smallest_diff best_line (cdxj_line # cdxj_lines) =
     (case line_datetime db cdxj_line of
        Inl e \<Rightarrow> Inl e
      | Inr dt \<Rightarrow>
          (let diff = \<bar>dt - target\<bar> in
           if (case smallest_diff of None \<Rightarrow> True | Some sd \<Rightarrow> diff < sd)
           then closest_loop db target (Some diff) (Some cdxj_line) cdxj_lines
           else closest_loop db target smallest_diff best_line cdxj_lines))"

definition get_cdxj_line_closest_to :: "ucd \<Rightarrow> str \<Rightarrow> str list \<Rightarrow> exn + str option" where
  "get_cdxj_line_closest_to db datetime_target cdxj_lines =
     (case py_int db 10 datetime_target of
        Inl e \<Rightarrow> Inl e
      | Inr target \<Rightarrow> closest_loop db target None None cdxj_lines)"

section \<open>External collaborators\<close>

text \<open>
  What the replay module calls and does not define: the SURT library, the helpers of
  \<open>ipwb.util\<close> and \<open>ipwb.backends\<close>, the file system and the Unicode tables. They are
  the fields of an environment that every function reading them takes as an argument;
  a call that may raise returns a sum.
\<close>

text \<open>
  The values \<open>json.loads\<close> returns; a float is kept as its text. The result of
  \<open>urlsplit\<close> has five components. A variable that holds \<open>bytes\<close> on one path and
  a \<open>str\<close> on another is a \<open>blob\<close>.
\<close>

datatype json =
    JNull | JBool bool | JInt int | JFloat str | JStr str
  | JList "json list" | JDict "(str \<times> json) list"

record split_result =
  url_scheme :: str
  url_netloc :: str
  url_path :: str
  url_query :: str
  url_fragment :: str

datatype blob = Bytes bytes | Str str

record env =
  unicode :: ucd
  lower_u :: "str \<Rightarrow> str"
  surt :: "str \<Rightarrow> exn + str"
  unsurt :: "str \<Rightarrow> exn + str"
  digits14_to_rfc1123 :: "str \<Rightarrow> exn + str"
  pad_digits14 :: "str \<Rightarrow> exn + str"
  is_localhosty :: "str \<Rightarrow> bool"
  get_ipwb_replay_index_path :: str
  get_ipwb_replay_config :: "str \<times> str"
  replay_host :: str
  replay_port :: str
  isfile :: "str \<Rightarrow> bool"
  resource_filename :: "str \<Rightarrow> str"
  get_web_archive_index :: "str \<Rightarrow> exn + str"
  proxy :: "str option"
  urlsplit :: "str \<Rightarrow> split_result"
  urlunsplit :: "split_result \<Rightarrow> str"
  check_daemon_is_alive :: "exn option"
  json_loads :: "str \<Rightarrow> exn + json"
  ipfs_cat :: "str \<Rightarrow> exn + bytes"
  crypto_pad :: "json \<Rightarrow> exn + bytes"
  b64encode :: "bytes \<Rightarrow> bytes"
  b64decode_json :: "json \<Rightarrow> exn + bytes"
  b64decode :: "blob \<Rightarrow> exn + bytes"
  aes_new :: "bytes \<Rightarrow> bytes \<Rightarrow> exn option"
  aes_decrypt_header :: "bytes \<Rightarrow> bytes \<Rightarrow> bytes \<Rightarrow> exn + bytes"
  aes_decrypt_payload :: "bytes \<Rightarrow> bytes \<Rightarrow> bytes \<Rightarrow> bytes \<Rightarrow> exn + bytes"
  check_status :: "json \<Rightarrow> exn option"
  request_url :: str
  request_query_string :: bytes
  redirect_page :: "str \<Rightarrow> int \<Rightarrow> bytes"

section \<open>Index search\<close>

subsection \<open>\<open>objectify_cdxj_data\<close>\<close>

record cdxj_obj =
  metadata :: "str list"
  data :: "str list"

text \<open>
  The loop stops at the first blank line. A line that does not start with \<open>!\<close> is cut
  at its first two spaces into three fields; with fewer fields the unpacking raises
  \<open>ValueError\<close>. The search string is the key alone when \<open>only_uri\<close> holds, and the
  key, a space and the timestamp otherwise.
\<close>

fun objectify_cdxj_data :: "str list \<Rightarrow> bool \<Rightarrow> exn + cdxj_obj" where
  "objectify_cdxj_data [] only_uri = Inr \<lparr>metadata = [], data = []\<rparr>"
| "objectify_cdxj_data (line # lines) only_uri =
     (if length (strip line) = 0 then Inr \<lparr>metadata = [], data = []\<rparr>
      else if hd line \<noteq> 33 then
        (case split_max 2 32 line of
           [surt_uri, datetime, the_rest] \<Rightarrow>
             (case objectify_cdxj_data lines only_uri of
                Inl e \<Rightarrow> Inl e
              | Inr obj \<Rightarrow>
                  Inr (obj\<lparr>data := (if only_uri then surt_uri else surt_uri @ [32] @ datetime)
                                    # data obj\<rparr>))
         | _ \<Rightarrow> Inl ValueError)
      else
        (case objectify_cdxj_data lines only_uri of
           Inl e \<Rightarrow> Inl e
         | Inr obj \<Rightarrow> Inr (obj\<lparr>metadata := line # metadata obj\<rparr>)))"

subsection \<open>\<open>bisect.bisect_left\<close> and \<open>binary_search\<close>\<close>

text \<open>
  \<open>bisect_left(a, x, lo, hi)\<close> of the standard library, for \<open>0 \<le> lo\<close> and
  \<open>hi \<le> len(a)\<close>, as \<open>binary_search\<close> calls it: every index it reads is below \<open>hi\<close>.
\<close>

function bisect_left :: "'a::linorder list \<Rightarrow> 'a \<Rightarrow> nat \<Rightarrow> nat \<Rightarrow> nat" where
  "bisect_left a x lo hi =
     (if lo < hi then
        (let mid = (lo + hi) div 2 in
         if a ! mid < x then bisect_left a x (mid + 1) hi else bisect_left a x lo mid)
      else lo)"
  by pat_completeness auto
termination
  by (relation "measure (\<lambda>(a, x, lo, hi). hi - lo)") auto

declare bisect_left.simps [simp del]

text \<open>\<open>binary_search\<close> returns an index when \<open>returnIndex\<close> holds and a line otherwise.\<close>

datatype hit = Index nat | Line str

definition binary_search :: "str list \<Rightarrow> str \<Rightarrow> bool \<Rightarrow> bool \<Rightarrow> exn + hit option" where
  "binary_search haystack needle returnIndex only_uri =
     (case objectify_cdxj_data haystack only_uri of
        Inl e \<Rightarrow> Inl e
      | Inr cdxj_obj \<Rightarrow>
          (let lBound = 0;
               surt_uris_and_datetimes = data cdxj_obj;
               meta_line_count = length (metadata cdxj_obj);
               uBound = length surt_uris_and_datetimes;
               pos = bisect_left surt_uris_and_datetimes needle lBound uBound
           in if pos \<noteq> uBound \<and> surt_uris_and_datetimes ! pos = needle then
                (if returnIndex then Inr (Some (Index (pos + meta_line_count)))
                 else if pos + meta_line_count < length haystack
                      then Inr (Some (Line (haystack ! (pos + meta_line_count))))
                      else Inl IndexError)
              else Inr None))"

subsection \<open>Reading the index file\<close>

definition get_index_file_full_path :: "env \<Rightarrow> str \<Rightarrow> str" where
  "get_index_file_full_path E cdxj_file_path =
     (if prefix (lit ''Qm'') cdxj_file_path then cdxj_file_path
      else (let index_file_path =
                  replace (lit ''ipwb.replay'') (lit ''ipwb'') (lit ''/'' @ cdxj_file_path)
            in if isfile E cdxj_file_path then cdxj_file_path
               else resource_filename E index_file_path))"

definition get_cdxj_line_binarySearch ::
    "env \<Rightarrow> str \<Rightarrow> str \<Rightarrow> bool \<Rightarrow> bool \<Rightarrow> exn + hit option" where
  "get_cdxj_line_binarySearch E surt_uri cdxj_file_path retIndex only_uri =
     (let full_file_path = get_index_file_full_path E cdxj_file_path in
      case get_web_archive_index E full_file_path of
        Inl e \<Rightarrow> Inl e
      | Inr content \<Rightarrow> binary_search (split 10 content) surt_uri retIndex only_uri)"

subsection \<open>\<open>get_cdxj_lines_with_urir\<close>\<close>

text \<open>
  The two loops around the pivot. The first walks from \<open>cdxj_line_index - 1\<close> down to
  0, the second from \<open>cdxj_line_index + 1\<close> up to the last line; neither stops at the
  first line of another key. \<open>lines_before cdxj_lines s n\<close> is the first loop with
  \<open>sI = n - 1\<close>.
\<close>

fun lines_before :: "str list \<Rightarrow> str \<Rightarrow> nat \<Rightarrow> str list" where
  "lines_before cdxj_lines s 0 = []"
| "lines_before cdxj_lines s (Suc sI) =
     (if hd (split 32 (cdxj_lines ! sI)) = s
      then cdxj_lines ! sI # lines_before cdxj_lines s sI
      else lines_before cdxj_lines s sI)"

function lines_after :: "str list \<Rightarrow> str \<Rightarrow> nat \<Rightarrow> str list" where
  "lines_after cdxj_lines s sI =
     (if sI < length cdxj_lines then
        (if hd (split 32 (cdxj_lines ! sI)) = s
         then cdxj_lines ! sI # lines_after cdxj_lines s (sI + 1)
         else lines_after cdxj_lines s (sI + 1))
      else [])"
  by pat_completeness auto
termination
  by (relation "measure (\<lambda>(cdxj_lines, s, sI). length cdxj_lines - sI)") auto

declare lines_after.simps [simp del]

text \<open>
  \<open>index_path\<close> is \<open>None\<close> where the caller passes \<open>None\<close>; an empty path is replaced
  as well. The index is read twice, once by the binary search and once for the scan.
\<close>

definition get_cdxj_lines_with_urir :: "env \<Rightarrow> str \<Rightarrow> str option \<Rightarrow> exn + str list" where
  "get_cdxj_lines_with_urir E urir index_path0 =
     (let index_path1 = (case index_path0 of
                           None \<Rightarrow> get_ipwb_replay_index_path E
                         | Some p \<Rightarrow> if p = [] then get_ipwb_replay_index_path E else p);
          index_path = get_index_file_full_path E index_path1
      in case surt E urir of
           Inl e \<Rightarrow> Inl e
         | Inr s \<Rightarrow>
             (case get_cdxj_line_binarySearch E s index_path True True of
                Inl e \<Rightarrow> Inl e
              | Inr None \<Rightarrow> Inr []
              | Inr (Some (Line l)) \<Rightarrow> Inl TypeError
              | Inr (Some (Index cdxj_line_index)) \<Rightarrow>
                  (case get_web_archive_index E index_path of
                     Inl e \<Rightarrow> Inl e
                   | Inr content \<Rightarrow>
                       (let cdxj_lines = split 10 content in
                        if cdxj_line_index < length cdxj_lines then
                          Inr (cdxj_lines ! cdxj_line_index
                               # lines_before cdxj_lines s cdxj_line_index
                               @ lines_after cdxj_lines s (cdxj_line_index + 1))
                        else Inl IndexError))))"

subsection \<open>Well-formed indexes\<close>

text \<open>
  The fields of a record line \<open>key timestamp json\<close>, and the search string
  \<open>objectify_cdxj_data\<close> takes from it.
\<close>

definition surt_key :: "str \<Rightarrow> str" where
  "surt_key l = hd (split_max 2 32 l)"

definition timestamp :: "str \<Rightarrow> str" where
  "timestamp l = split_max 2 32 l ! 1"

definition search_string :: "bool \<Rightarrow> str \<Rightarrow> str" where
  "search_string only_uri l = (if only_uri then surt_key l else surt_key l @ [32] @ timestamp l)"

text \<open>
  A metadata line starts with \<open>!\<close>. A record line is not blank, starts neither with
  \<open>!\<close> nor with a space (its key is not empty) and has its three fields. An index is
  a block of metadata lines, then the record lines, then the empty strings that
  \<open>content.split('\n')\<close> leaves after the final line terminator.
\<close>

definition metadata_line :: "str \<Rightarrow> bool" where
  "metadata_line l \<longleftrightarrow> l \<noteq> [] \<and> hd l = 33"

definition record_line :: "str \<Rightarrow> bool" where
  "record_line l \<longleftrightarrow>
     strip l \<noteq> [] \<and> hd l \<noteq> 33 \<and> hd l \<noteq> 32 \<and> length (split_max 2 32 l) = 3"

definition index_lines :: "str list \<Rightarrow> str list \<Rightarrow> str list \<Rightarrow> bool" where
  "index_lines meta recs trailing \<longleftrightarrow>
     list_all metadata_line meta \<and> list_all record_line recs \<and> list_all (\<lambda>l. l = []) trailing"

text \<open>
  \<open>get_cdxj_lines_with_urir\<close> reads the index twice, through the path the binary
  search resolves and through the path of the scan: \<open>index_reads E index_path content\<close>
  says that both reads return \<open>content\<close>.
\<close>

definition index_reads :: "env \<Rightarrow> str option \<Rightarrow> str \<Rightarrow> bool" where
  "index_reads E index_path0 content \<longleftrightarrow>
     (let index_path1 = (case index_path0 of
                           None \<Rightarrow> get_ipwb_replay_index_path E
                         | Some p \<Rightarrow> if p = [] then get_ipwb_replay_index_path E else p);
          index_path = get_index_file_full_path E index_path1
      in get_web_archive_index E index_path = Inr content \<and>
         get_web_archive_index E (get_index_file_full_path E index_path) = Inr content)"

subsection \<open>An index of three captures\<close>

definition example_meta :: "str list" where
  "example_meta = [lit ''!context [\"https://tools.ietf.org/html/rfc7089\"]'',
                   lit ''!meta {\"generator\": \"ipwb\"}'']"

definition example_records :: "str list" where
  "example_records =
     [lit ''com,example)/ 20190101000000 {\"locator\": \"urn:ipfs/QmH1/QmP1\"}'',
      lit ''com,example)/ 20200101000000 {\"locator\": \"urn:ipfs/QmH2/QmP2\"}'',
      lit ''org,example)/ 20180101000000 {\"locator\": \"urn:ipfs/QmH3/QmP3\"}'']"

definition example_index :: str where
  "example_index = join [10] (example_meta @ example_records @ [[]])"

section \<open>More of the Python runtime\<close>

subsection \<open>Results that may raise\<close>

definition bind :: "exn + 'a \<Rightarrow> ('a \<Rightarrow> exn + 'b) \<Rightarrow> exn + 'b" where
  "bind m f = (case m of Inl e \<Rightarrow> Inl e | Inr x \<Rightarrow> f x)"

subsection \<open>UTF-8: \<open>bytes.decode\<close> and \<open>str.encode\<close>\<close>

definition cont :: "int \<Rightarrow> bool" where
  "cont b \<longleftrightarrow> 0x80 \<le> b \<and> b \<le> 0xBF"

fun utf8_decode_ints :: "int list \<Rightarrow> exn + str" where
  "utf8_decode_ints [] = Inr []"
| "utf8_decode_ints (b0 # bs) =
     (if b0 < 0x80 then bind (utf8_decode_ints bs) (\<lambda>s. Inr (b0 # s))
      else if 0xC2 \<le> b0 \<and> b0 \<le> 0xDF then
        (case bs of
           b1 # r \<Rightarrow>
             if cont b1
             then bind (utf8_decode_ints r) (\<lambda>s. Inr (((b0 - 0xC0) * 64 + (b1 - 0x80)) # s))
             else Inl UnicodeDecodeError
         | _ \<Rightarrow> Inl UnicodeDecodeError)
      else if 0xE0 \<le> b0 \<and> b0 \<le> 0xEF then
        (case bs of
           b1 # b2 # r \<Rightarrow>
             if (if b0 = 0xE0 then 0xA0 \<le> b1 \<and> b1 \<le> 0xBF
                 else if b0 = 0xED then 0x80 \<le> b1 \<and> b1 \<le> 0x9F else cont b1) \<and> cont b2
             then bind (utf8_decode_ints r)
                    (\<lambda>s. Inr (((b0 - 0xE0) * 4096 + (b1 - 0x80) * 64 + (b2 - 0x80)) # s))
             else Inl UnicodeDecodeError
         | _ \<Rightarrow> Inl UnicodeDecodeError)
      else if 0xF0 \<le> b0 \<and> b0 \<le> 0xF4 then
        (case bs of
           b1 # b2 # b3 # r \<Rightarrow>
             if (if b0 = 0xF0 then 0x90 \<le> b1 \<and> b1 \<le> 0xBF
                 else if b0 = 0xF4 then 0x80 \<le> b1 \<and> b1 \<le> 0x8F else cont b1)
                \<and> cont b2 \<and> cont b3
             then bind (utf8_decode_ints r)
                    (\<lambda>s. Inr (((b0 - 0xF0) * 262144 + (b1 - 0x80) * 4096
                                 + (b2 - 0x80) * 64 + (b3 - 0x80)) # s))
             else Inl UnicodeDecodeError
         | _ \<Rightarrow> Inl UnicodeDecodeError)
      else Inl UnicodeDecodeError)"

definition decode :: "bytes \<Rightarrow> exn + str" where
  "decode b = utf8_decode_ints (map uint b)"

definition encode_char :: "int \<Rightarrow> exn + bytes" where
  "encode_char c =
     (if 0 \<le> c \<and> c < 0x80 then Inr [word_of_int c]
      else if 0x80 \<le> c \<and> c < 0x800 then
        Inr [word_of_int (0xC0 + c div 64), word_of_int (0x80 + c mod 64)]
      else if 0x800 \<le> c \<and> c < 0x10000 \<and> \<not> (0xD800 \<le> c \<and> c \<le> 0xDFFF) then
        Inr [word_of_int (0xE0 + c div 4096), word_of_int (0x80 + c div 64 mod 64),
             word_of_int (0x80 + c mod 64)]
      else if 0x10000 \<le> c \<and> c \<le> 0x10FFFF then
        Inr [word_of_int (0xF0 + c div 262144), word_of_int (0x80 + c div 4096 mod 64),
             word_of_int (0x80 + c div 64 mod 64), word_of_int (0x80 + c mod 64)]
      else Inl UnicodeEncodeError)"

fun encode :: "str \<Rightarrow> exn + bytes" where
  "encode [] = Inr []"
| "encode (c # cs) = bind (encode_char c) (\<lambda>b. bind (encode cs) (\<lambda>bs. Inr (b @ bs)))"

subsection \<open>Slices, \<open>str.lower\<close>\<close>

text \<open>\<open>s[:n]\<close> and \<open>s[n:]\<close>; a negative \<open>n\<close> counts from the end.\<close>

definition slice_to :: "int \<Rightarrow> 'a list \<Rightarrow> 'a list" where
  "slice_to n s = (if 0 \<le> n then take (nat n) s else take (length s - nat (- n)) s)"

definition slice_from :: "int \<Rightarrow> 'a list \<Rightarrow> 'a list" where
  "slice_from n s = (if 0 \<le> n then drop (nat n) s else drop (length s - nat (- n)) s)"

text \<open>
  \<open>str.lower\<close> on an ASCII string maps \<open>A\<close> to \<open>Z\<close> onto \<open>a\<close> to \<open>z\<close>; on any other
  string it is the runtime's.
\<close>

definition lower :: "env \<Rightarrow> str \<Rightarrow> str" where
  "lower E s =
     (if list_all (\<lambda>c. 0 \<le> c \<and> c < 128) s
      then map (\<lambda>c. if 65 \<le> c \<and> c \<le> 90 then c + 32 else c) s
      else lower_u E s)"

subsection \<open>The regular expressions of the module\<close>

text \<open>
  \<open>rel=.*memento"\<close> and \<open>rel=.*(next|prev|first|last)\<close> under \<open>re.findall\<close>: some
  occurrence of \<open>rel=\<close> is followed, before the next line feed, by one of the words.
\<close>

fun rel_then :: "str list \<Rightarrow> str \<Rightarrow> bool" where
  "rel_then words [] = False"
| "rel_then words (c # cs) =
     ((prefix (lit ''rel='') (c # cs) \<and>
       list_ex (\<lambda>w. sublist w (takeWhile (\<lambda>x. x \<noteq> 10) (drop 4 (c # cs)))) words)
      \<or> rel_then words cs)"

definition is_memento_line :: "str \<Rightarrow> bool" where
  "is_memento_line line = rel_then [lit ''memento\"''] line"

definition has_relation_word :: "str \<Rightarrow> bool" where
  "has_relation_word line = rel_then [lit ''next'', lit ''prev'', lit ''first'', lit ''last''] line"

text \<open>
  Matching under \<open>re.I\<close>: a lower-case ASCII letter of the pattern matches itself, its
  capital, and the two characters above ASCII that fold to a letter of the patterns
  used here (the Kelvin sign for \<open>k\<close>, the long s for \<open>s\<close>).
\<close>

definition ci_eq :: "int \<Rightarrow> int \<Rightarrow> bool" where
  "ci_eq p c \<longleftrightarrow>
     c = p \<or> (97 \<le> p \<and> p \<le> 122 \<and> c = p - 32) \<or> (p = 107 \<and> c = 0x212A) \<or> (p = 115 \<and> c = 0x17F)"

fun ci_prefix :: "str \<Rightarrow> str \<Rightarrow> bool" where
  "ci_prefix [] s = True"
| "ci_prefix (p # ps) [] = False"
| "ci_prefix (p # ps) (c # cs) = (ci_eq p c \<and> ci_prefix ps cs)"

definition is_word :: "env \<Rightarrow> int \<Rightarrow> bool" where
  "is_word E c \<longleftrightarrow>
     (48 \<le> c \<and> c \<le> 57) \<or> (65 \<le> c \<and> c \<le> 90) \<or> (97 \<le> c \<and> c \<le> 122) \<or> c = 95
     \<or> (128 \<le> c \<and> alnum (unicode E) c)"

text \<open>\<open>re.search(r'\bchunked\b', v, re.I)\<close>; \<open>prev\<close> says that the character before
  is a word character.\<close>

fun search_chunked :: "env \<Rightarrow> bool \<Rightarrow> str \<Rightarrow> bool" where
  "search_chunked E prev [] = False"
| "search_chunked E prev (c # cs) =
     ((\<not> prev \<and> ci_prefix (lit ''chunked'') (c # cs) \<and>
       (case drop 7 (c # cs) of [] \<Rightarrow> True | d # _ \<Rightarrow> \<not> is_word E d))
      \<or> search_chunked E (is_word E c) cs)"

text \<open>\<open>re.match('^https?://', s, flags=re.IGNORECASE)\<close>.\<close>

definition isUri :: "str \<Rightarrow> bool" where
  "isUri s \<longleftrightarrow> ci_prefix (lit ''http://'') s \<or> ci_prefix (lit ''https://'') s"

text \<open>
  \<open>re.search(r'/\d{14}/', url).end()\<close>: the index after the first slash, fourteen
  decimal digits and slash; \<open>None\<close> where there is no match.
\<close>

definition is_decimal :: "env \<Rightarrow> int \<Rightarrow> bool" where
  "is_decimal E c \<longleftrightarrow> (48 \<le> c \<and> c \<le> 57) \<or> (128 \<le> c \<and> decimal (unicode E) c \<noteq> None)"

fun search_d14_end :: "env \<Rightarrow> nat \<Rightarrow> str \<Rightarrow> nat option" where
  "search_d14_end E i [] = None"
| "search_d14_end E i (c # cs) =
     (if c = 47 \<and> 15 \<le> length cs \<and> list_all (is_decimal E) (take 14 cs) \<and> cs ! 14 = 47
      then Some (i + 16)
      else search_d14_end E (i + 1) cs)"
section \<open>Chunked transfer decoding: \<open>extract_response_from_chunked_data\<close>\<close>

text \<open>
  The loop of the decoder. Each round reads the chunk size, takes that many characters
  of \<open>rest\<close>, and cuts what follows at its first two line feeds into the line
  terminator of the chunk, the next descriptor and the new \<open>rest\<close>; with fewer than
  two line feeds the unpacking raises \<open>ValueError\<close>. The new \<open>rest\<close> is shorter, so the
  loop ends.
\<close>

function chunk_loop :: "ucd \<Rightarrow> str \<Rightarrow> str \<Rightarrow> str \<Rightarrow> exn + str" where
  "chunk_loop db chunk_descriptor rest retStr =
     (if chunk_descriptor = lit ''0'' then Inr retStr
      else
        (case py_int db 16 chunk_descriptor of
           Inl e \<Rightarrow> Inl e
         | Inr chunk_dec_from_hex \<Rightarrow>
             (case split_max 2 10 (slice_from chunk_dec_from_hex rest) of
                [CRLF, descriptor, rest'] \<Rightarrow>
                  (let chunk_descriptor' = strip (hd (split 59 descriptor)) in
                   if length (strip chunk_descriptor') = 0
                   then Inr (retStr @ slice_to chunk_dec_from_hex rest)
                   else chunk_loop db chunk_descriptor' rest'
                          (retStr @ slice_to chunk_dec_from_hex rest))
              | _ \<Rightarrow> Inl ValueError)))"
  by pat_completeness auto
termination
proof -
  have cut: "sep \<in> set s \<Longrightarrow> length (tl (dropWhile (\<lambda>c. c \<noteq> sep) s)) < length s"
    for sep :: int and s
    by (induction s) auto
  have third: "length rest' < length rest"
    if parts: "split_max 2 10 (slice_from n rest) = [CRLF, descriptor, rest']"
    for n and rest CRLF descriptor rest' :: str
  proof -
    let ?s = "slice_from n rest"
    let ?t = "tl (dropWhile (\<lambda>c. c \<noteq> 10) ?s)"
    have len: "length ?s \<le> length rest" by (simp add: slice_from_def)
    from parts have in1: "10 \<in> set ?s"
      by (auto simp: numeral_2_eq_2 split: if_splits)
    from parts in1 have in2: "10 \<in> set ?t" and r: "rest' = tl (dropWhile (\<lambda>c. c \<noteq> 10) ?t)"
      by (auto simp: numeral_2_eq_2 split: if_splits)
    have "length rest' < length ?t" unfolding r by (rule cut [OF in2])
    moreover have "length ?t < length ?s" by (rule cut [OF in1])
    ultimately show ?thesis using len by simp
  qed
  show ?thesis
    by (relation "measure (\<lambda>(db, chunk_descriptor, rest, retStr). length rest)")
       (auto dest: third)
qed

declare chunk_loop.simps [simp del]

definition extract_response_from_chunked_data :: "ucd \<Rightarrow> blob \<Rightarrow> exn + str" where
  "extract_response_from_chunked_data db data0 =
     bind (case data0 of Bytes b \<Rightarrow> decode b | Str s \<Rightarrow> Inr s)
       (\<lambda>data1.
          case split_max 1 10 data1 of
            [chunk_descriptor, rest] \<Rightarrow>
              chunk_loop db (strip (hd (split 59 chunk_descriptor))) rest []
          | _ \<Rightarrow> Inl ValueError)"

section \<open>TimeMaps\<close>

subsection \<open>\<open>get_proxied_urit\<close> and \<open>generate_link_timemap_from_cdxj_lines\<close>\<close>

definition get_proxied_urit :: "env \<Rightarrow> str \<Rightarrow> split_result" where
  "get_proxied_urit E uriT =
     (let tmurl = urlsplit E uriT in
      case proxy E of
        None \<Rightarrow> tmurl
      | Some app_proxy \<Rightarrow>
          (let tmurl1 = tmurl\<lparr>url_netloc := app_proxy\<rparr>;
               proxy_uri = urlsplit E app_proxy
           in if url_scheme proxy_uri \<noteq> []
              then tmurl1\<lparr>url_scheme := url_scheme proxy_uri,
                           url_netloc := url_netloc proxy_uri @ url_path proxy_uri\<rparr>
              else tmurl1))"

definition first_last_str :: "nat \<Rightarrow> nat \<Rightarrow> str" where
  "first_last_str n i =
     (if n > 1 then (if i = 0 then lit ''first '' else if i = n - 1 then lit ''last '' else [])
      else if n = 1 then lit ''first last '' else [])"

text \<open>The entry of one record, without the separator before it: the URI of the memento,
  its relation and its datetime.\<close>

definition memento_link :: "str \<Rightarrow> str \<Rightarrow> str \<Rightarrow> str \<Rightarrow> str \<Rightarrow> str" where
  "memento_link host_and_port datetime uri rel dt_rfc1123 =
     lit ''<'' @ host_and_port @ lit ''memento/'' @ datetime @ lit ''/'' @ uri
     @ lit ''>; rel=\"'' @ rel @ lit ''\"; datetime=\"'' @ dt_rfc1123 @ lit ''\"''"

fun link_loop :: "env \<Rightarrow> str \<Rightarrow> nat \<Rightarrow> nat \<Rightarrow> str list \<Rightarrow> str \<Rightarrow> exn + str" where
  "link_loop E host_and_port n i [] tm_data = Inr tm_data"
| "link_loop E host_and_port n i (line # cdxj_lines) tm_data =
     (case split_max 2 32 line of
        [surt_uri, datetime, json] \<Rightarrow>
          (case digits14_to_rfc1123 E datetime of
             Inl e \<Rightarrow> Inl e
           | Inr dt_rfc1123 \<Rightarrow>
               (case unsurt E surt_uri of
                  Inl e \<Rightarrow> Inl e
                | Inr uri \<Rightarrow>
                    link_loop E host_and_port n (i + 1) cdxj_lines
                      (tm_data @ lit '','' @ [10]
                       @ memento_link host_and_port datetime uri
                           (first_last_str n i @ lit ''memento'') dt_rfc1123)))
      | _ \<Rightarrow> Inl ValueError)"

text \<open>
  The three addresses the TimeMap is written with: its own URI and the URI of the
  TimeGate, both rewritten where a proxy is configured, and the prefix of the memento
  URIs, which is the TimeMap URI with its path cleared.
\<close>

definition timemap_uris :: "env \<Rightarrow> str \<Rightarrow> str \<Rightarrow> str \<times> str \<times> str" where
  "timemap_uris E tm_self0 tg_uri0 =
     (let tmurl = get_proxied_urit E tm_self0;
          tm_self = (if proxy E \<noteq> None then urlunsplit E tmurl else tm_self0);
          tg_uri = (if proxy E \<noteq> None then urlunsplit E (get_proxied_urit E tg_uri0)
                    else tg_uri0);
          host_and_port = urlunsplit E (tmurl\<lparr>url_path := []\<rparr>) @ lit ''/''
      in (tm_self, tg_uri, host_and_port))"

definition generate_link_timemap_from_cdxj_lines ::
    "env \<Rightarrow> str list \<Rightarrow> str \<Rightarrow> str \<Rightarrow> str \<Rightarrow> exn + str" where
  "generate_link_timemap_from_cdxj_lines E cdxj_lines original tm_self0 tg_uri0 =
     (case timemap_uris E tm_self0 tg_uri0 of
        (tm_self, tg_uri, host_and_port) \<Rightarrow>
          (case unsurt E original of
             Inl e \<Rightarrow> Inl e
           | Inr unsurted \<Rightarrow>
               (let original_uri = lit ''http://'' @ unsurted;
                    cdxj_tm_uri = replace (lit ''/timemap/link/'') (lit ''/timemap/cdxj/'') tm_self;
                    tm_data =
                      lit ''<'' @ original_uri @ lit ''>; rel=\"original\",'' @ [10]
                      @ lit ''<'' @ tm_self @ lit ''>; rel=\"self timemap\"; ''
                      @ lit ''type=\"application/link-format\",'' @ [10]
                      @ lit ''<'' @ cdxj_tm_uri @ lit ''>; rel=\"timemap\"; ''
                      @ lit ''type=\"application/cdxj+ors\",'' @ [10]
                      @ lit ''<'' @ tg_uri @ lit ''>; rel=\"timegate\"''
                in case link_loop E host_and_port (length cdxj_lines) 0 cdxj_lines tm_data of
                     Inl e \<Rightarrow> Inl e
                   | Inr tm \<Rightarrow> Inr (tm @ [10]))))"

subsection \<open>\<open>get_link_header_abbreviated_timemap\<close>\<close>

text \<open>
  The first loop: at the first memento line that contains the pivot datetime, the next
  line gets \<open>next\<close> and the line before gets \<open>prev\<close>, and the loop stops. A pivot
  that is \<open>None\<close> makes \<open>pivot_datetime in line\<close> raise \<open>TypeError\<close>. Index \<open>-1\<close> is the
  last line.
\<close>

function mark_loop :: "str option \<Rightarrow> str list \<Rightarrow> nat \<Rightarrow> exn + str list" where
  "mark_loop pivot_datetime tm_lines idx =
     (if idx < length tm_lines then
        (let line = tm_lines ! idx in
         if \<not> is_memento_line line then mark_loop pivot_datetime tm_lines (idx + 1)
         else
           (case pivot_datetime of
              None \<Rightarrow> Inl TypeError
            | Some pivot \<Rightarrow>
                if sublist pivot line then
                  (let add_both_next_and_prev = (idx > 0 \<and> idx < length tm_lines - 1) in
                   case (if add_both_next_and_prev \<or> idx = 0 then
                           (if idx + 1 < length tm_lines
                            then Inr (tm_lines[idx + 1 :=
                                   replace (lit ''memento\"'') (lit ''next memento\"'')
                                     (tm_lines ! (idx + 1))])
                            else Inl IndexError)
                         else Inr tm_lines) of
                     Inl e \<Rightarrow> Inl e
                   | Inr tm_lines1 \<Rightarrow>
                       if add_both_next_and_prev \<or> idx = length tm_lines - 1 then
                         (let previous = (if idx = 0 then length tm_lines1 - 1 else idx - 1) in
                          Inr (tm_lines1[previous :=
                                 replace (lit ''memento\"'') (lit ''prev memento\"'')
                                   (tm_lines1 ! previous)]))
                       else Inr tm_lines1)
                else mark_loop pivot_datetime tm_lines (idx + 1)))
      else Inr tm_lines)"
  by pat_completeness auto
termination
  by (relation "measure (\<lambda>(pivot_datetime, tm_lines, idx). length tm_lines - idx)") auto

declare mark_loop.simps [simp del]

text \<open>The second loop: a memento line without the pivot and without a relation word
  becomes the empty string.\<close>

fun drop_loop :: "str option \<Rightarrow> str list \<Rightarrow> exn + str list" where
  "drop_loop pivot_datetime [] = Inr []"
| "drop_loop pivot_datetime (line # tm_lines) =
     (if \<not> is_memento_line line
      then bind (drop_loop pivot_datetime tm_lines) (\<lambda>ls. Inr (line # ls))
      else
        (case pivot_datetime of
           None \<Rightarrow> Inl TypeError
         | Some pivot \<Rightarrow>
             if sublist pivot line
             then bind (drop_loop pivot_datetime tm_lines) (\<lambda>ls. Inr (line # ls))
             else if \<not> has_relation_word line
             then bind (drop_loop pivot_datetime tm_lines) (\<lambda>ls. Inr ([] # ls))
             else bind (drop_loop pivot_datetime tm_lines) (\<lambda>ls. Inr (line # ls))))"

definition get_link_header_abbreviated_timemap :: "env \<Rightarrow> str \<Rightarrow> str option \<Rightarrow> exn + str" where
  "get_link_header_abbreviated_timemap E urir pivot_datetime =
     bind (surt E urir) (\<lambda>s.
     bind (get_cdxj_lines_with_urir E urir (Some (get_ipwb_replay_index_path E)))
       (\<lambda>cdxj_lines_with_urir.
     (let host_and_port = get_ipwb_replay_config E;
          tg_uri = lit ''http://'' @ fst host_and_port @ lit '':'' @ snd host_and_port
                   @ lit ''/timegate/'' @ urir;
          tm_uri = lit ''http://'' @ fst host_and_port @ lit '':'' @ snd host_and_port
                   @ lit ''/timemap/link/'' @ urir
      in bind (generate_link_timemap_from_cdxj_lines E cdxj_lines_with_urir s tm_uri tg_uri)
           (\<lambda>tm0.
              (let tm = replace (lit ''rel=\"self timemap\"'') (lit ''rel=\"timemap\"'') tm0 in
               if sublist (lit ''rel=\"first last memento\"'') tm
               then Inr (strip (replace [10] [32] tm))
               else
                 bind (mark_loop pivot_datetime (split 10 tm) 0) (\<lambda>tm_lines1.
                 bind (drop_loop pivot_datetime tm_lines1) (\<lambda>tm_lines2.
                   Inr (join [32] (filter (\<lambda>l. l \<noteq> []) tm_lines2)))))))))"
section \<open>Responses\<close>

text \<open>
  A Flask response: the status as it was given, the header list of werkzeug, the body.
  A response starts with the default content type. \<open>check_status\<close> is werkzeug's
  validation of the status argument. A view may also return a pair of a text and a
  status code.
\<close>

record response =
  resp_status :: json
  resp_headers :: "(str \<times> str) list"
  resp_data :: bytes

datatype pyret = Resp response | Tuple str int

definition Response :: "env \<Rightarrow> bytes \<Rightarrow> json \<Rightarrow> exn + response" where
  "Response E b st =
     (case check_status E st of
        Some e \<Rightarrow> Inl e
      | None \<Rightarrow>
          Inr \<lparr>resp_status = st,
               resp_headers = [(lit ''Content-Type'', lit ''text/html; charset=utf-8'')],
               resp_data = b\<rparr>)"

definition Response_text :: "env \<Rightarrow> str \<Rightarrow> json \<Rightarrow> exn + response" where
  "Response_text E msg st = bind (encode msg) (\<lambda>b. Response E b st)"

text \<open>
  \<open>headers[key] = value\<close>: the first entry of that name, compared in lower case, is
  replaced and the later ones are removed; without one the entry is appended.
  \<open>headers.get(key)\<close> is the value of the first entry of that name.
\<close>

fun headers_set :: "env \<Rightarrow> (str \<times> str) list \<Rightarrow> str \<Rightarrow> str \<Rightarrow> (str \<times> str) list" where
  "headers_set E [] k v = [(k, v)]"
| "headers_set E ((k0, v0) # hs) k v =
     (if lower E k0 = lower E k
      then (k, v) # filter (\<lambda>(k1, v1). lower E k1 \<noteq> lower E k) hs
      else (k0, v0) # headers_set E hs k v)"

definition headers_get :: "env \<Rightarrow> (str \<times> str) list \<Rightarrow> str \<Rightarrow> str option" where
  "headers_get E hs k = map_option snd (find (\<lambda>(k0, v0). lower E k0 = lower E k) hs)"

definition redirect :: "env \<Rightarrow> str \<Rightarrow> int \<Rightarrow> response" where
  "redirect E location code =
     \<lparr>resp_status = JInt code,
      resp_headers = [(lit ''Content-Type'', lit ''text/html; charset=utf-8''),
                 (lit ''Location'', location)],
      resp_data = redirect_page E location code\<rparr>"

subsection \<open>Operations on the values of \<open>json.loads\<close>\<close>

text \<open>\<open>obj[key]\<close> for a string key, \<open>key in obj\<close>, and \<open>status[0] == '3'\<close>.\<close>

definition subscript :: "json \<Rightarrow> str \<Rightarrow> exn + json" where
  "subscript obj key =
     (case obj of
        JDict d \<Rightarrow> (case map_of d key of None \<Rightarrow> Inl KeyError | Some v \<Rightarrow> Inr v)
      | _ \<Rightarrow> Inl TypeError)"

definition contains :: "str \<Rightarrow> json \<Rightarrow> exn + bool" where
  "contains key obj =
     (case obj of
        JDict d \<Rightarrow> Inr (map_of d key \<noteq> None)
      | JList l \<Rightarrow> Inr (JStr key \<in> set l)
      | JStr s \<Rightarrow> Inr (sublist key s)
      | _ \<Rightarrow> Inl TypeError)"

definition first_is_3 :: "json \<Rightarrow> exn + bool" where
  "first_is_3 st =
     (case st of
        JStr s \<Rightarrow> if s = [] then Inl IndexError else Inr (hd s = 51)
      | JList l \<Rightarrow> if l = [] then Inl IndexError else Inr (hd l = JStr (lit ''3''))
      | JDict d \<Rightarrow> Inl KeyError
      | _ \<Rightarrow> Inl TypeError)"

text \<open>The decimal text of a number, for the f-strings.\<close>

fun show_nat :: "nat \<Rightarrow> str" where
  "show_nat n = (if n < 10 then [48 + int n] else show_nat (n div 10) @ [48 + int (n mod 10)])"

declare show_nat.simps [simp del]

section \<open>Resolution and replay\<close>

subsection \<open>\<open>generate_no_mementos_interface\<close>\<close>

fun captures_list :: "env \<Rightarrow> str list \<Rightarrow> str \<Rightarrow> str \<Rightarrow> exn + str \<times> str" where
  "captures_list E [] urir msg = Inr (urir, msg)"
| "captures_list E (line # ls) urir msg =
     (let fields = split_max 2 32 line in
      bind (unsurt E (hd fields)) (\<lambda>urir'.
        if length fields < 2 then Inl IndexError
        else captures_list E ls urir'
               (msg @ lit ''<li><a href=\"/'' @ fields ! 1 @ lit ''/'' @ urir' @ lit ''\">''
                @ urir' @ lit '' at '' @ fields ! 1 @ lit ''</a></li>'')))"

definition generate_no_mementos_interface :: "env \<Rightarrow> str \<Rightarrow> str option \<Rightarrow> exn + pyret" where
  "generate_no_mementos_interface E path datetime =
     (let msg0 = lit ''<h1>ERROR 404</h1>'' @ lit ''<p>No captures found for '' @ path
                 @ lit '' at '' @ (case datetime of None \<Rightarrow> lit ''None'' | Some d \<Rightarrow> d)
                 @ lit ''.</p>''
      in bind (get_cdxj_lines_with_urir E path None) (\<lambda>lines_with_same_urir.
         if length lines_with_same_urir = 1 then
           (let fields = split_max 2 32 (lines_with_same_urir ! 0) in
            if length fields < 2 then Inl IndexError
            else bind (unsurt E (hd fields)) (\<lambda>u.
                   Inr (Resp (redirect E (lit ''/'' @ fields ! 1 @ lit ''/'' @ u) 302))))
         else
           bind (if lines_with_same_urir \<noteq> [] then
                   bind (captures_list E lines_with_same_urir []
                           (msg0 @ lit ''<p>'' @ show_nat (length lines_with_same_urir)
                            @ lit '' capture(s) available:</p><ul>''))
                     (\<lambda>(urir, msg). Inr (urir, msg @ lit ''</ul>''))
                 else Inr ([], msg0))
             (\<lambda>(urir, msg1).
                (let msg = msg1 @ lit ''<p>TimeMaps: ''
                           @ lit ''<a href=\"/timemap/link/'' @ urir @ lit ''\">Link</a> ''
                           @ lit ''<a href=\"/timemap/cdxj/'' @ urir @ lit ''\">CDXJ</a> ''
                 in bind (Response_text E msg (JInt 404)) (\<lambda>resp.
                    bind (get_link_header_abbreviated_timemap E path datetime) (\<lambda>link_header.
                      Inr (Resp (resp\<lparr>resp_headers := headers_set E (resp_headers resp) (lit ''Link'')
                                   (replace (lit ''self timemap'') (lit ''timemap'') link_header)\<rparr>))))))))"

subsection \<open>\<open>show_uri\<close>: the header loop\<close>

text \<open>
  One stored header line. A \<open>Transfer-Encoding\<close> header whose value has the word
  \<open>chunked\<close> starts the chunked decoding of \<open>payload\<close>; any exception of the decoder
  reaches the \<open>continue\<close>, which leaves the response as it is and goes on with the
  next line.
\<close>

definition set_orig_header :: "env \<Rightarrow> response \<Rightarrow> str \<Rightarrow> str \<Rightarrow> response" where
  "set_orig_header E resp k v =
     (let k' = (if lower E k \<notin> {lit ''content-type'', lit ''content-encoding'', lit ''location''}
                then lit ''X-Archive-Orig-'' @ k else k)
      in resp\<lparr>resp_headers := headers_set E (resp_headers resp) k' (strip v)\<rparr>)"

fun header_loop :: "env \<Rightarrow> bytes \<Rightarrow> str list \<Rightarrow> response \<Rightarrow> exn + response" where
  "header_loop E payload [] resp = Inr resp"
| "header_loop E payload (hLine # h_lines) resp =
     (case split_max 1 58 hLine of
        [k, v] \<Rightarrow>
          if lower E k = lit ''transfer-encoding'' \<and> search_chunked E False v then
            (case extract_response_from_chunked_data (unicode E) (Bytes payload) of
               Inl e \<Rightarrow> header_loop E payload h_lines resp
             | Inr unchunked_payload \<Rightarrow>
                 (case encode unchunked_payload of
                    Inl e \<Rightarrow> Inl e
                  | Inr b \<Rightarrow> header_loop E payload h_lines (set_orig_header E (resp\<lparr>resp_data := b\<rparr>) k v)))
          else header_loop E payload h_lines (set_orig_header E resp k v)
      | _ \<Rightarrow> Inl ValueError)"

subsection \<open>\<open>show_uri\<close>: from the decoded blobs to the response\<close>

definition ipwb_js_inject :: str where
  "ipwb_js_inject = lit ''<script src=\"/ipwbassets/webui.js\"></script>'' @ [10]
     @ lit ''                      <script>injectIPWBJS()</script>''"

text \<open>
  Lines 705 to 765 of the module. \<open>header\<close> is \<open>None\<close> until a fetch assigns it;
  \<open>header.decode()\<close> raises \<open>AttributeError\<close> on \<open>None\<close> and on a \<open>str\<close>.
\<close>

definition stored_status :: "json \<Rightarrow> exn + json" where
  "stored_status json_object =
     (case contains (lit ''status_code'') json_object of
        Inl e \<Rightarrow> Inl e
      | Inr False \<Rightarrow> Inr (JInt 200)
      | Inr True \<Rightarrow> subscript json_object (lit ''status_code''))"

definition inject_script :: "env \<Rightarrow> str \<Rightarrow> response \<Rightarrow> exn + response" where
  "inject_script E cdxj_line resp =
     (let new_payload = resp_data resp;
          fields = split_max 2 32 cdxj_line
      in bind (if length fields < 3 then Inl IndexError else json_loads E (fields ! 2)) (\<lambda>j.
         bind (subscript j (lit ''mime_type'')) (\<lambda>mime.
         bind (contains (lit ''text/html'') mime) (\<lambda>html.
           if html then
             bind (decode new_payload) (\<lambda>text.
             bind (encode (replace (lit ''</html>'') (ipwb_js_inject @ lit ''</html>'') text))
               (\<lambda>b. Inr (resp\<lparr>resp_data := b\<rparr>)))
           else Inr resp))))"

definition rewrite_location :: "env \<Rightarrow> json \<Rightarrow> response \<Rightarrow> exn + response" where
  "rewrite_location E status resp =
     bind (first_is_3 status) (\<lambda>is3.
       if \<not> is3 then Inr resp
       else
         (case headers_get E (resp_headers resp) (lit ''Location'') of
            None \<Rightarrow> Inl TypeError
          | Some location \<Rightarrow>
              if isUri location then
                (case search_d14_end E 0 (request_url E) of
                   None \<Rightarrow> Inl AttributeError
                 | Some e \<Rightarrow>
                     Inr (resp\<lparr>resp_headers := headers_set E (resp_headers resp) (lit ''Location'')
                                  (take e (request_url E) @ location)\<rparr>))
              else Inr resp))"

text \<open>The stored header block without carriage returns, with folded lines joined, cut
  into lines, the status line removed (\<open>h_lines\<close>).\<close>

definition header_lines :: "str \<Rightarrow> str list" where
  "header_lines header_text =
     tl (split 10 (replace [10, 32] [32] (replace [10, 9] [9] (replace [13] [] header_text))))"

definition replay_response ::
    "env \<Rightarrow> str \<Rightarrow> json \<Rightarrow> str \<Rightarrow> bytes \<Rightarrow> blob option \<Rightarrow> exn + response" where
  "replay_response E cdxj_line json_object datetime payload header =
     bind (case header of Some (Bytes h) \<Rightarrow> decode h | _ \<Rightarrow> Inl AttributeError) (\<lambda>header_text.
     bind (stored_status json_object) (\<lambda>status.
     bind (Response E payload status) (\<lambda>resp0.
     bind (header_loop E payload (header_lines header_text) resp0) (\<lambda>resp1.
     bind (inject_script E cdxj_line resp1) (\<lambda>resp2.
     bind (digits14_to_rfc1123 E datetime) (\<lambda>memento_datetime.
     bind (Inr (resp2\<lparr>resp_headers := headers_set E (resp_headers resp2)
                        (lit ''Memento-Datetime'') memento_datetime\<rparr>)) (\<lambda>resp3.
     bind (Inr (if header = None
                then resp3\<lparr>resp_headers := headers_set E (resp_headers resp3)
                       (lit ''X-Headers-Generated-By'') (lit ''InterPlanetary Wayback'')\<rparr>
                else resp3)) (\<lambda>resp4.
       rewrite_location E status resp4))))))))"
subsection \<open>\<open>show_uri\<close>: fetching, the decryption key\<close>

text \<open>
  What a request comes to: the view returns a value, an exception leaves it (Flask's
  handler for \<open>Exception\<close> then answers \<open>500\<close>). A loop that never ends is the value
  \<open>None\<close> of the option type around it.
\<close>

datatype 'a result = Returns 'a | Raises exn

definition of_sum :: "exn + 'a \<Rightarrow> 'a result" where
  "of_sum r = (case r of Inl e \<Rightarrow> Raises e | Inr x \<Rightarrow> Returns x)"

text \<open>
  The \<open>except\<close> clauses of the fetch, in their order. \<open>payload\<close> is \<open>None\<close> when the
  exception came from the first \<open>cat\<close>. The result is the value the view returns at
  once, or the payload and header to go on with.
\<close>

definition fetch_failed ::
    "env \<Rightarrow> str \<Rightarrow> exn \<Rightarrow> bytes option \<Rightarrow> exn + (pyret + bytes \<times> blob option)" where
  "fetch_failed E path e payload =
     (case e of
        IpfsTimeoutError \<Rightarrow>
          bind (Response_text E
                  (path @ lit '' not found in IPFS :('' @ lit '' <a href=\"http://''
                   @ replay_host E @ lit '':'' @ replay_port E @ lit ''\">'' @ lit ''Go home</a>'')
                  (JInt 200))
            (\<lambda>resp. Inr (Inl (Resp resp)))
      | TypeError \<Rightarrow> Inr (Inl (Tuple (lit ''A Type Error Occurred'') 500))
      | HTTPError \<Rightarrow> Inr (Inl (Tuple (lit ''Fetching from IPFS failed'') 503))
      | HashNotFoundError \<Rightarrow>
          (case payload of
             None \<Rightarrow> Inr (Inl (Tuple (lit ''Hashed not found'') 404))
           | Some p \<Rightarrow> Inr (Inr (p, Some (Str []))))
      | _ \<Rightarrow> Inr (Inl (Tuple (lit ''An unknown exception occurred'') 500)))"

definition fetch_blobs ::
    "env \<Rightarrow> str \<Rightarrow> str list \<Rightarrow> exn + (pyret + bytes \<times> blob option)" where
  "fetch_blobs E path digests =
     (case ipfs_cat E (last digests) of
        Inl e \<Rightarrow> fetch_failed E path e None
      | Inr payload \<Rightarrow>
          if length digests < 2 then fetch_failed E path IndexError (Some payload)
          else
            (case ipfs_cat E (digests ! (length digests - 2)) of
               Inl e \<Rightarrow> fetch_failed E path e (Some payload)
             | Inr header \<Rightarrow> Inr (Inr (payload, Some (Bytes header)))))"

text \<open>
  The loop \<open>while key_string is None\<close>. With an \<open>encryption_key\<close> in the metadata the
  key is its value; where that value is \<open>null\<close> the loop reads it again and never
  ends. Without the key the loop builds the prompt and calls \<open>raw_input\<close>, a name that
  the module neither defines nor imports and that is no builtin of Python 3 (the
  module is Python 3 only, it is written with f-strings): looking the name up raises
  \<open>NameError\<close>, before anything is read from the console.
\<close>

definition ask_for_key :: "str \<times> str" where
  "ask_for_key = (lit ''Enter a path for file'', lit '' containing decryption key: '' @ [10] @ lit ''> '')"

definition raw_input :: "str \<times> str \<Rightarrow> exn + str" where
  "raw_input prompt = Inl NameError"

partial_function (option) key_loop :: "env \<Rightarrow> json \<Rightarrow> json result option" where
  "key_loop E json_object =
     (case contains (lit ''encryption_key'') json_object of
        Inl e \<Rightarrow> Some (Raises e)
      | Inr present \<Rightarrow>
          if present then
            (case subscript json_object (lit ''encryption_key'') of
               Inl e \<Rightarrow> Some (Raises e)
             | Inr key_string \<Rightarrow>
                 if key_string = JNull then key_loop E json_object else Some (Returns key_string))
          else
            (case raw_input ask_for_key of
               Inl e \<Rightarrow> Some (Raises e)
             | Inr key_string \<Rightarrow> Some (Returns (JStr key_string))))"

declare key_loop.simps [code]

definition decrypt_blobs ::
    "env \<Rightarrow> json \<Rightarrow> json \<Rightarrow> bytes \<Rightarrow> blob option \<Rightarrow> exn + bytes \<times> blob option" where
  "decrypt_blobs E json_object key_string payload header =
     bind (crypto_pad E key_string) (\<lambda>padded_encryption_key.
     bind (subscript json_object (lit ''encryption_nonce'')) (\<lambda>n.
     bind (b64decode_json E n) (\<lambda>nonce.
       (let key = b64encode E padded_encryption_key in
        case aes_new E key nonce of
          Some e \<Rightarrow> Inl e
        | None \<Rightarrow>
            bind (case header of Some h \<Rightarrow> b64decode E h | None \<Rightarrow> Inl TypeError) (\<lambda>hc.
            bind (aes_decrypt_header E key nonce hc) (\<lambda>h.
            bind (b64decode E (Bytes payload)) (\<lambda>pc.
            bind (aes_decrypt_payload E key nonce hc pc) (\<lambda>p.
              Inr (p, Some (Bytes h))))))))))"

subsection \<open>\<open>show_uri\<close>\<close>

definition lookup_line :: "env \<Rightarrow> str \<Rightarrow> str option \<Rightarrow> exn + hit option" where
  "lookup_line E path datetime =
     bind (surt E path) (\<lambda>surted_uri.
       get_cdxj_line_binarySearch E
         (case datetime of None \<Rightarrow> surted_uri | Some d \<Rightarrow> surted_uri @ [32] @ d)
         (get_ipwb_replay_index_path E) False False)"

definition locator_digests :: "json \<Rightarrow> exn + str list" where
  "locator_digests json_object =
     bind (subscript json_object (lit ''locator''))
       (\<lambda>l. case l of JStr s \<Rightarrow> Inr (split 47 s) | _ \<Rightarrow> Inl AttributeError)"

text \<open>Lines 687 to 765: the decryption, where the metadata asks for it, and the
  response.\<close>

definition serve_blobs ::
    "env \<Rightarrow> str \<Rightarrow> json \<Rightarrow> str \<Rightarrow> bytes \<Rightarrow> blob option \<Rightarrow> pyret result option" where
  "serve_blobs E cdxj_line json_object datetime payload header =
     (case contains (lit ''encryption_method'') json_object of
        Inl e \<Rightarrow> Some (Raises e)
      | Inr encrypted \<Rightarrow>
          if encrypted then
            (case key_loop E json_object of
               None \<Rightarrow> None
             | Some (Raises e) \<Rightarrow> Some (Raises e)
             | Some (Returns key_string) \<Rightarrow>
                 Some (of_sum
                   (bind (decrypt_blobs E json_object key_string payload header) (\<lambda>(p, h).
                    bind (replay_response E cdxj_line json_object datetime p h)
                      (\<lambda>r. Inr (Resp r))))))
          else
            Some (of_sum (bind (replay_response E cdxj_line json_object datetime payload header)
                            (\<lambda>r. Inr (Resp r)))))"

text \<open>Lines 635 to 685: the fields of the line found, its metadata, the two blobs.\<close>

definition serve_line :: "env \<Rightarrow> str \<Rightarrow> str \<Rightarrow> pyret result option" where
  "serve_line E path cdxj_line =
     (let cdxj_parts = split_max 2 32 cdxj_line in
      if length cdxj_parts < 3 then Some (Raises IndexError)
      else
        (case json_loads E (cdxj_parts ! 2) of
           Inl e \<Rightarrow> Some (Raises e)
         | Inr json_object \<Rightarrow>
             (case locator_digests json_object of
                Inl e \<Rightarrow> Some (Raises e)
              | Inr digests \<Rightarrow>
                  (case fetch_blobs E path digests of
                     Inl e \<Rightarrow> Some (Raises e)
                   | Inr (Inl ret) \<Rightarrow> Some (Returns ret)
                   | Inr (Inr (payload, header)) \<Rightarrow>
                       serve_blobs E cdxj_line json_object (cdxj_parts ! 1) payload header))))"

definition show_uri :: "env \<Rightarrow> str \<Rightarrow> str option \<Rightarrow> pyret result option" where
  "show_uri E path datetime =
     (case check_daemon_is_alive E of
        Some IPFSDaemonNotAvailable \<Rightarrow>
          Some (of_sum (bind (Response_text E
                  (lit ''IPFS daemon not running. ''
                   @ lit ''Start it using $ ipfs daemon on the command-line ''
                   @ lit '' or from the <a href=\"/\">'' @ lit ''IPWB replay homepage</a>.'')
                  (JInt 503)) (\<lambda>r. Inr (Resp r))))
      | Some e \<Rightarrow> Some (Raises e)
      | None \<Rightarrow>
          (case lookup_line E path datetime of
             Inl e \<Rightarrow>
               Some (of_sum (bind (Response_text E
                       (path @ lit '' not found :('' @ lit '' <a href=\"http://'' @ replay_host E
                        @ lit '':'' @ replay_port E @ lit ''\">'' @ lit ''Go home</a>'')
                       (JInt 200)) (\<lambda>r. Inr (Resp r))))
           | Inr None \<Rightarrow> Some (of_sum (generate_no_mementos_interface E path datetime))
           | Inr (Some (Index i)) \<Rightarrow> Some (Raises AttributeError)
           | Inr (Some (Line cdxj_line)) \<Rightarrow> serve_line E path cdxj_line))"

subsection \<open>\<open>resolve_memento\<close> and \<open>show_memento\<close>\<close>



section \<open>An example archive\<close>

text \<open>
  One environment to evaluate the functions in: the index of three captures above, a
  daemon that is alive, a content store that holds a header block and a chunked payload
  for every locator, metadata with a status code and no encryption, and no proxy. The
  stand-ins for the SURT library and for \<open>ipwb.util\<close> are constant functions.
\<close>

definition example_metadata :: json where
  "example_metadata =
     JDict [(lit ''locator'', JStr (lit ''urn:ipfs/QmH1/QmP1'')),
            (lit ''mime_type'', JStr (lit ''text/plain'')),
            (lit ''status_code'', JStr (lit ''200''))]"

definition example_header :: bytes where
  "example_header = blit ''HTTP/1.1 200 OK'' @ [13, 10] @ blit ''Content-Type: text/plain''
                    @ [13, 10] @ blit ''Transfer-Encoding: chunked''"

definition example_payload :: bytes where
  "example_payload = blit ''5'' @ [13, 10] @ blit ''hello'' @ [13, 10] @ blit ''0''
                     @ [13, 10, 13, 10]"

definition example_env :: env where
  "example_env =
     \<lparr>unicode = ascii_ucd,
      lower_u = (\<lambda>s. s),
      surt = (\<lambda>u. Inr (lit ''com,example)/'')),
      unsurt = (\<lambda>s. Inr (lit ''example.com/'')),
      digits14_to_rfc1123 = (\<lambda>d. Inr (lit ''Tue, 01 Jan 2019 00:00:00 GMT'')),
      pad_digits14 = (\<lambda>d. Inr d),
      is_localhosty = (\<lambda>u. False),
      get_ipwb_replay_index_path = lit ''index.cdxj'',
      get_ipwb_replay_config = (lit ''localhost'', lit ''2016''),
      replay_host = lit ''localhost'',
      replay_port = lit ''2016'',
      isfile = (\<lambda>p. True),
      resource_filename = (\<lambda>p. p),
      get_web_archive_index = (\<lambda>p. Inr example_index),
      proxy = None,
      urlsplit = (\<lambda>u. \<lparr>url_scheme = lit ''http'', url_netloc = lit ''localhost:2016'',
                          url_path = drop 21 u, url_query = [], url_fragment = []\<rparr>),
      urlunsplit = (\<lambda>p. url_scheme p @ lit ''://'' @ url_netloc p @ url_path p),
      check_daemon_is_alive = None,
      json_loads = (\<lambda>s. Inr example_metadata),
      ipfs_cat = (\<lambda>h. if h = lit ''QmH1'' then Inr example_header else Inr example_payload),
      crypto_pad = (\<lambda>k. Inl TypeError),
      b64encode = (\<lambda>b. b),
      b64decode_json = (\<lambda>j. Inl TypeError),
      b64decode = (\<lambda>b. Inl TypeError),
      aes_new = (\<lambda>k n. None),
      aes_decrypt_header = (\<lambda>k n h. Inr h),
      aes_decrypt_payload = (\<lambda>k n h p. Inr p),
      check_status = (\<lambda>s. None),
      request_url = lit ''http://localhost:2016/memento/20190101000000/example.com/'',
      request_query_string = [],
      redirect_page = (\<lambda>l c. blit ''Redirecting...'')\<rparr>"

text \<open>Variations: metadata without a status code; a header hash that does not resolve;
  an encrypted record without its key; a payload that is not chunked although the
  stored headers say so.\<close>

definition example_env_no_status :: env where
  "example_env_no_status =
     example_env\<lparr>json_loads := (\<lambda>s. Inr (JDict
        [(lit ''locator'', JStr (lit ''urn:ipfs/QmH1/QmP1'')),
         (lit ''mime_type'', JStr (lit ''text/plain''))]))\<rparr>"

definition example_env_no_header :: "exn \<Rightarrow> env" where
  "example_env_no_header e =
     example_env\<lparr>ipfs_cat := (\<lambda>h. if h = lit ''QmH1'' then Inl e else Inr example_payload)\<rparr>"

definition example_env_encrypted :: env where
  "example_env_encrypted =
     example_env\<lparr>json_loads := (\<lambda>s. Inr (JDict
        [(lit ''locator'', JStr (lit ''urn:ipfs/QmH1/QmP1'')),
         (lit ''mime_type'', JStr (lit ''text/plain'')),
         (lit ''status_code'', JStr (lit ''200'')),
         (lit ''encryption_method'', JStr (lit ''aes''))]))\<rparr>"



section \<open>Nearest capture: the resolver minimises the distance\<close>

lemma closest_loop_inv:
  assumes "map (line_datetime db) ls = map Inr ds"
  shows "(closest_loop db t (Some sd) (Some b) ls = Inr (Some b) \<and> (\<forall>j<length ls. sd \<le> \<bar>ds ! j - t\<bar>)) \<or>
         (\<exists>i<length ls. closest_loop db t (Some sd) (Some b) ls = Inr (Some (ls ! i)) \<and>
            \<bar>ds ! i - t\<bar> < sd \<and>
            (\<forall>j<length ls. \<bar>ds ! i - t\<bar> \<le> \<bar>ds ! j - t\<bar>) \<and>
            (\<forall>j<i. \<bar>ds ! i - t\<bar> < \<bar>ds ! j - t\<bar>))"
  using assms
proof (induction ls arbitrary: sd b ds)
  case Nil
  then show ?case by simp
next
  case (Cons l ls)
  then obtain d ds' where ds: "ds = d # ds'" and d: "line_datetime db l = Inr d"
    and rest: "map (line_datetime db) ls = map Inr ds'"
    by (cases ds) auto
  show ?case
  proof (cases "\<bar>d - t\<bar> < sd")
    case True
    have step: "closest_loop db t (Some sd) (Some b) (l # ls) =
                closest_loop db t (Some \<bar>d - t\<bar>) (Some l) ls"
      using d True by (simp add: Let_def)
    from Cons.IH [OF rest, of "\<bar>d - t\<bar>" l]
    show ?thesis
    proof (elim disjE exE conjE)
      assume r: "closest_loop db t (Some \<bar>d - t\<bar>) (Some l) ls = Inr (Some l)"
        and m: "\<forall>j<length ls. \<bar>d - t\<bar> \<le> \<bar>ds' ! j - t\<bar>"
      have "\<forall>j<length (l # ls). \<bar>(d # ds') ! 0 - t\<bar> \<le> \<bar>(d # ds') ! j - t\<bar>"
        using m by (auto simp: nth_Cons split: nat.splits)
      then show ?thesis
        using step r True ds by (intro disjI2 exI [of _ 0]) auto
    next
      fix i
      assume i: "i < length ls"
        and r: "closest_loop db t (Some \<bar>d - t\<bar>) (Some l) ls = Inr (Some (ls ! i))"
        and lt: "\<bar>ds' ! i - t\<bar> < \<bar>d - t\<bar>"
        and m: "\<forall>j<length ls. \<bar>ds' ! i - t\<bar> \<le> \<bar>ds' ! j - t\<bar>"
        and f: "\<forall>j<i. \<bar>ds' ! i - t\<bar> < \<bar>ds' ! j - t\<bar>"
      have "\<forall>j<length (l # ls). \<bar>(d # ds') ! Suc i - t\<bar> \<le> \<bar>(d # ds') ! j - t\<bar>"
        using m lt by (auto simp: nth_Cons split: nat.splits)
      moreover have "\<forall>j<Suc i. \<bar>(d # ds') ! Suc i - t\<bar> < \<bar>(d # ds') ! j - t\<bar>"
        using f lt by (auto simp: nth_Cons split: nat.splits)
      ultimately show ?thesis
        using step r True ds i lt by (intro disjI2 exI [of _ "Suc i"]) auto
    qed
  next
    case False
    have step: "closest_loop db t (Some sd) (Some b) (l # ls) =
                closest_loop db t (Some sd) (Some b) ls"
      using d False by (simp add: Let_def)
    from Cons.IH [OF rest, of sd b]
    show ?thesis
    proof (elim disjE exE conjE)
      assume r: "closest_loop db t (Some sd) (Some b) ls = Inr (Some b)"
        and m: "\<forall>j<length ls. sd \<le> \<bar>ds' ! j - t\<bar>"
      have "\<forall>j<length (l # ls). sd \<le> \<bar>(d # ds') ! j - t\<bar>"
        using m False by (auto simp: nth_Cons split: nat.splits)
      then show ?thesis using step r ds by auto
    next
      fix i
      assume i: "i < length ls"
        and r: "closest_loop db t (Some sd) (Some b) ls = Inr (Some (ls ! i))"
        and lt: "\<bar>ds' ! i - t\<bar> < sd"
        and m: "\<forall>j<length ls. \<bar>ds' ! i - t\<bar> \<le> \<bar>ds' ! j - t\<bar>"
        and f: "\<forall>j<i. \<bar>ds' ! i - t\<bar> < \<bar>ds' ! j - t\<bar>"
      have "\<forall>j<length (l # ls). \<bar>(d # ds') ! Suc i - t\<bar> \<le> \<bar>(d # ds') ! j - t\<bar>"
        using m lt False by (auto simp: nth_Cons split: nat.splits)
      moreover have "\<forall>j<Suc i. \<bar>(d # ds') ! Suc i - t\<bar> < \<bar>(d # ds') ! j - t\<bar>"
        using f lt False by (auto simp: nth_Cons split: nat.splits)
      ultimately show ?thesis
        using step r ds i lt by (intro disjI2 exI [of _ "Suc i"]) auto
    qed
  qed
qed

lemma closest_loop_first:
  assumes "map (line_datetime db) (l # ls) = map Inr (d # ds)"
  shows "\<exists>i<length (l # ls). closest_loop db t None None (l # ls) = Inr (Some ((l # ls) ! i)) \<and>
            (\<forall>j<length (l # ls). \<bar>(d # ds) ! i - t\<bar> \<le> \<bar>(d # ds) ! j - t\<bar>) \<and>
            (\<forall>j<i. \<bar>(d # ds) ! i - t\<bar> < \<bar>(d # ds) ! j - t\<bar>)"
proof -
  from assms have d: "line_datetime db l = Inr d"
    and rest: "map (line_datetime db) ls = map Inr ds" by auto
  have step: "closest_loop db t None None (l # ls) =
              closest_loop db t (Some \<bar>d - t\<bar>) (Some l) ls"
    using d by (simp add: Let_def)
  from closest_loop_inv [OF rest, of t "\<bar>d - t\<bar>" l]
  show ?thesis
  proof (elim disjE exE conjE)
    assume r: "closest_loop db t (Some \<bar>d - t\<bar>) (Some l) ls = Inr (Some l)"
      and m: "\<forall>j<length ls. \<bar>d - t\<bar> \<le> \<bar>ds ! j - t\<bar>"
    have "\<forall>j<length (l # ls). \<bar>(d # ds) ! 0 - t\<bar> \<le> \<bar>(d # ds) ! j - t\<bar>"
      using m by (auto simp: nth_Cons split: nat.splits)
    then show ?thesis
      using step r by (intro exI [of _ 0]) auto
  next
    fix i
    assume i: "i < length ls"
      and r: "closest_loop db t (Some \<bar>d - t\<bar>) (Some l) ls = Inr (Some (ls ! i))"
      and lt: "\<bar>ds ! i - t\<bar> < \<bar>d - t\<bar>"
      and m: "\<forall>j<length ls. \<bar>ds ! i - t\<bar> \<le> \<bar>ds ! j - t\<bar>"
      and f: "\<forall>j<i. \<bar>ds ! i - t\<bar> < \<bar>ds ! j - t\<bar>"
    have "\<forall>j<length (l # ls). \<bar>(d # ds) ! Suc i - t\<bar> \<le> \<bar>(d # ds) ! j - t\<bar>"
      using m lt by (auto simp: nth_Cons split: nat.splits)
    moreover have "\<forall>j<Suc i. \<bar>(d # ds) ! Suc i - t\<bar> < \<bar>(d # ds) ! j - t\<bar>"
      using f lt by (auto simp: nth_Cons split: nat.splits)
    ultimately show ?thesis
      using step r i by (intro exI [of _ "Suc i"]) auto
  qed
qed

text \<open>
  Claim C3. For a non-empty list of records whose timestamps parse, and a target that
  parses, \<open>get_cdxj_line_closest_to\<close> returns a record whose integer distance to the
  target is minimal, and every record before it in the list is strictly farther: the
  comparison is strict, so the first record met wins a tie. For the timestamps 10, 20
  and 30 the targets 21 and 25 both resolve to 20.
\<close>

theorem closest_to_minimises_first_wins:
  assumes "py_int db 10 datetime_target = Inr t"
    and "map (line_datetime db) cdxj_lines = map Inr dts"
    and "cdxj_lines \<noteq> []"
  shows "(\<exists>i<length cdxj_lines.
            get_cdxj_line_closest_to db datetime_target cdxj_lines = Inr (Some (cdxj_lines ! i)) \<and>
            (\<forall>j<length cdxj_lines. \<bar>dts ! i - t\<bar> \<le> \<bar>dts ! j - t\<bar>) \<and>
            (\<forall>j<i. \<bar>dts ! i - t\<bar> < \<bar>dts ! j - t\<bar>)) \<and>
         get_cdxj_line_closest_to ascii_ucd (lit ''21'')
            [lit ''k 10 {}'', lit ''k 20 {}'', lit ''k 30 {}''] = Inr (Some (lit ''k 20 {}'')) \<and>
         get_cdxj_line_closest_to ascii_ucd (lit ''25'')
            [lit ''k 10 {}'', lit ''k 20 {}'', lit ''k 30 {}''] = Inr (Some (lit ''k 20 {}''))"
proof (intro conjI)
  obtain l ls where ls: "cdxj_lines = l # ls" using assms(3) by (cases cdxj_lines) auto
  with assms(2) obtain d ds where ds: "dts = d # ds" by (cases dts) auto
  show "\<exists>i<length cdxj_lines.
            get_cdxj_line_closest_to db datetime_target cdxj_lines = Inr (Some (cdxj_lines ! i)) \<and>
            (\<forall>j<length cdxj_lines. \<bar>dts ! i - t\<bar> \<le> \<bar>dts ! j - t\<bar>) \<and>
            (\<forall>j<i. \<bar>dts ! i - t\<bar> < \<bar>dts ! j - t\<bar>)"
    using closest_loop_first [of db l ls d ds t] assms(1,2)
    unfolding ls ds get_cdxj_line_closest_to_def by simp
next
  show "get_cdxj_line_closest_to ascii_ucd (lit ''21'')
            [lit ''k 10 {}'', lit ''k 20 {}'', lit ''k 30 {}''] = Inr (Some (lit ''k 20 {}''))"
    by code_simp
next
  show "get_cdxj_line_closest_to ascii_ucd (lit ''25'')
            [lit ''k 10 {}'', lit ''k 20 {}'', lit ''k 30 {}''] = Inr (Some (lit ''k 20 {}''))"
    by code_simp
qed

theorem closest_to_minimises_first_wins_witness:
  "\<exists>i<length [lit ''a 10 {}'', lit ''a 20 {}'', lit ''a 40 {}''].
     get_cdxj_line_closest_to ascii_ucd (lit ''30'')
       [lit ''a 10 {}'', lit ''a 20 {}'', lit ''a 40 {}''] =
     Inr (Some ([lit ''a 10 {}'', lit ''a 20 {}'', lit ''a 40 {}''] ! i)) \<and>
     (\<forall>j<length [lit ''a 10 {}'', lit ''a 20 {}'', lit ''a 40 {}''].
        \<bar>[10, 20, 40] ! i - 30\<bar> \<le> \<bar>[10, 20, 40] ! j - (30::int)\<bar>) \<and>
     (\<forall>j<i. \<bar>[10, 20, 40] ! i - 30\<bar> < \<bar>[10, 20, 40] ! j - (30::int)\<bar>)"
proof -
  let ?L = "[lit ''a 10 {}'', lit ''a 20 {}'', lit ''a 40 {}'']"
  have h1: "py_int ascii_ucd 10 (lit ''30'') = Inr 30" by code_simp
  have h2: "map (line_datetime ascii_ucd) ?L = map Inr [10, 20, 40]"
    by code_simp
  have h3: "?L \<noteq> []" by simp
  from closest_to_minimises_first_wins [OF h1 h2 h3] show ?thesis by (rule conjunct1)
qed

section \<open>Index search: exact matches and the records of a key\<close>

lemma strip_Nil_iff: "strip s = [] \<longleftrightarrow> list_all isspace s"
proof -
  have "dropWhile isspace (rev (dropWhile isspace s)) = [] \<longleftrightarrow> dropWhile isspace s = []"
  proof
    assume a: "dropWhile isspace (rev (dropWhile isspace s)) = []"
    show "dropWhile isspace s = []"
    proof (rule ccontr)
      assume n: "dropWhile isspace s \<noteq> []"
      then have "\<not> isspace (hd (dropWhile isspace s))" by (rule hd_dropWhile)
      moreover have "hd (dropWhile isspace s) \<in> set (rev (dropWhile isspace s))"
        using n by simp
      ultimately show False using a by (auto simp: dropWhile_eq_Nil_conv)
    qed
  next
    assume "dropWhile isspace s = []"
    then show "dropWhile isspace (rev (dropWhile isspace s)) = []"
      by (simp del: dropWhile_eq_Nil_conv)
  qed
  then show ?thesis
    by (simp add: strip_def dropWhile_eq_Nil_conv list_all_iff)
qed

lemma takeWhile_no_sep: "sep \<notin> set s \<Longrightarrow> takeWhile (\<lambda>c. c \<noteq> sep) s = s"
  by (induction s) auto

lemma hd_split_max: "hd (split_max n sep s) = (if n = 0 then s else takeWhile (\<lambda>c. c \<noteq> sep) s)"
  by (cases n) (auto simp: takeWhile_no_sep)

lemma hd_split: "hd (split sep s) = takeWhile (\<lambda>c. c \<noteq> sep) s"
  by (cases s) (auto simp: split_def hd_split_max simp del: split_max.simps)

lemma surt_key_eq: "surt_key l = takeWhile (\<lambda>c. c \<noteq> 32) l"
  by (simp add: surt_key_def hd_split_max)

lemma metadata_line_not_blank: "metadata_line m \<Longrightarrow> strip m \<noteq> []"
  by (cases m) (auto simp: metadata_line_def strip_Nil_iff isspace_def unicode_space_def)

lemma record_line_fields:
  assumes "record_line r"
  shows "split_max 2 32 r = [surt_key r, timestamp r, split_max 2 32 r ! 2]"
proof -
  from assms have "length (split_max 2 32 r) = 3" by (simp add: record_line_def)
  then obtain a b c where "split_max 2 32 r = [a, b, c]"
    by (auto simp: length_Suc_conv numeral_3_eq_3)
  then show ?thesis by (simp add: surt_key_def timestamp_def)
qed

lemma objectify_trailing:
  assumes "trailing = [] \<or> strip (hd trailing) = []"
  shows "objectify_cdxj_data trailing ou = Inr \<lparr>metadata = [], data = []\<rparr>"
  using assms by (cases trailing) auto

lemma objectify_records:
  assumes "list_all record_line recs" "trailing = [] \<or> strip (hd trailing) = []"
  shows "objectify_cdxj_data (recs @ trailing) ou =
         Inr \<lparr>metadata = [], data = map (search_string ou) recs\<rparr>"
  using assms(1)
proof (induction recs)
  case Nil
  then show ?case using objectify_trailing [OF assms(2)] by simp
next
  case (Cons r recs)
  then have r: "record_line r" and IH: "objectify_cdxj_data (recs @ trailing) ou =
         Inr \<lparr>metadata = [], data = map (search_string ou) recs\<rparr>" by auto
  have f: "split_max 2 32 r = [surt_key r, timestamp r, split_max 2 32 r ! 2]"
    by (rule record_line_fields [OF r])
  have nb: "strip r \<noteq> []" "hd r \<noteq> 33" using r by (auto simp: record_line_def)
  have "objectify_cdxj_data (r # recs @ trailing) ou =
        (case [surt_key r, timestamp r, split_max 2 32 r ! 2] of
           [surt_uri, datetime, the_rest] \<Rightarrow>
             (case objectify_cdxj_data (recs @ trailing) ou of
                Inl e \<Rightarrow> Inl e
              | Inr obj \<Rightarrow>
                  Inr (obj\<lparr>data := (if ou then surt_uri else surt_uri @ [32] @ datetime)
                                    # data obj\<rparr>))
         | _ \<Rightarrow> Inl ValueError)"
    using nb by (simp only: objectify_cdxj_data.simps f [symmetric]) simp
  then show ?case by (simp add: IH search_string_def)
qed

lemma objectify_index:
  assumes "list_all metadata_line meta" "list_all record_line recs"
    "trailing = [] \<or> strip (hd trailing) = []"
  shows "objectify_cdxj_data (meta @ recs @ trailing) ou =
         Inr \<lparr>metadata = meta, data = map (search_string ou) recs\<rparr>"
  using assms(1)
proof (induction meta)
  case Nil
  then show ?case using objectify_records [OF assms(2,3)] by simp
next
  case (Cons m meta)
  then have m: "metadata_line m" by simp
  have "strip m \<noteq> []" by (rule metadata_line_not_blank [OF m])
  moreover have "hd m = 33" using m by (simp add: metadata_line_def)
  ultimately show ?case using Cons by simp
qed

lemma bisect_left_spec:
  assumes "sorted a" "lo \<le> hi" "hi \<le> length a"
    "\<forall>i<lo. a ! i < x" "\<forall>i. hi \<le> i \<and> i < length a \<longrightarrow> x \<le> a ! i"
  shows "lo \<le> bisect_left a x lo hi \<and> bisect_left a x lo hi \<le> hi \<and>
         (\<forall>i<bisect_left a x lo hi. a ! i < x) \<and>
         (\<forall>i. bisect_left a x lo hi \<le> i \<and> i < length a \<longrightarrow> x \<le> a ! i)"
  using assms
proof (induction a x lo hi rule: bisect_left.induct)
  case (1 a x lo hi)
  show ?case
  proof (cases "lo < hi")
    case False
    then show ?thesis using "1.prems" by (simp add: bisect_left.simps)
  next
    case True
    define mid where "mid = (lo + hi) div 2"
    have mid: "lo \<le> mid" "mid < hi" using True by (auto simp: mid_def)
    show ?thesis
    proof (cases "a ! mid < x")
      case lt: True
      have below: "\<forall>i<mid + 1. a ! i < x"
      proof (intro allI impI)
        fix i assume "i < mid + 1"
        then have "a ! i \<le> a ! mid"
          using "1.prems"(1,3) mid by (intro sorted_nth_mono) auto
        then show "a ! i < x" using lt by simp
      qed
      have eq: "bisect_left a x lo hi = bisect_left a x (mid + 1) hi"
        using True lt by (subst bisect_left.simps) (simp add: mid_def Let_def)
      have "mid + 1 \<le> bisect_left a x (mid + 1) hi \<and> bisect_left a x (mid + 1) hi \<le> hi \<and>
         (\<forall>i<bisect_left a x (mid + 1) hi. a ! i < x) \<and>
         (\<forall>i. bisect_left a x (mid + 1) hi \<le> i \<and> i < length a \<longrightarrow> x \<le> a ! i)"
        using "1.IH"(1) [OF True mid_def lt] "1.prems" mid below by simp
      then show ?thesis using mid unfolding eq by auto
    next
      case ge: False
      have above: "\<forall>i. mid \<le> i \<and> i < length a \<longrightarrow> x \<le> a ! i"
      proof (intro allI impI)
        fix i assume i: "mid \<le> i \<and> i < length a"
        then have "a ! mid \<le> a ! i"
          using "1.prems"(1) by (intro sorted_nth_mono) auto
        then show "x \<le> a ! i" using ge by simp
      qed
      have eq: "bisect_left a x lo hi = bisect_left a x lo mid"
        using True ge by (subst bisect_left.simps) (simp add: mid_def Let_def)
      have "lo \<le> bisect_left a x lo mid \<and> bisect_left a x lo mid \<le> mid \<and>
         (\<forall>i<bisect_left a x lo mid. a ! i < x) \<and>
         (\<forall>i. bisect_left a x lo mid \<le> i \<and> i < length a \<longrightarrow> x \<le> a ! i)"
        using "1.IH"(2) [OF True mid_def ge] "1.prems" mid above by simp
      then show ?thesis using mid unfolding eq by auto
    qed
  qed
qed

lemma bisect_left_first:
  assumes "sorted a" and p_def: "p = bisect_left a x 0 (length a)"
  shows "p \<le> length a" "\<forall>i<p. a ! i < x" "\<forall>i. p \<le> i \<and> i < length a \<longrightarrow> x \<le> a ! i"
    "(p \<noteq> length a \<and> a ! p = x) \<longleftrightarrow> x \<in> set a"
proof -
  have s: "0 \<le> p \<and> p \<le> length a \<and> (\<forall>i<p. a ! i < x) \<and>
        (\<forall>i. p \<le> i \<and> i < length a \<longrightarrow> x \<le> a ! i)"
    unfolding p_def using assms(1) by (intro bisect_left_spec) auto
  then show "p \<le> length a" "\<forall>i<p. a ! i < x" "\<forall>i. p \<le> i \<and> i < length a \<longrightarrow> x \<le> a ! i"
    by auto
  show "(p \<noteq> length a \<and> a ! p = x) \<longleftrightarrow> x \<in> set a"
  proof
    assume "p \<noteq> length a \<and> a ! p = x"
    then show "x \<in> set a" using s by (metis le_neq_implies_less nth_mem)
  next
    assume "x \<in> set a"
    then obtain i where i: "i < length a" "a ! i = x" by (auto simp: in_set_conv_nth)
    have "p \<le> i" using s i by (metis less_irrefl not_le_imp_less)
    then have "x \<le> a ! p" "a ! p \<le> a ! i"
      using s i assms(1) by (auto intro: sorted_nth_mono)
    then show "p \<noteq> length a \<and> a ! p = x" using i \<open>p \<le> i\<close> by auto
  qed
qed

lemma lines_before_filter:
  "n \<le> length ls \<Longrightarrow>
   lines_before ls s n = filter (\<lambda>l. hd (split 32 l) = s) (rev (take n ls))"
  by (induction n) (auto simp: take_Suc_conv_app_nth)

lemma lines_after_filter:
  "lines_after ls s n = filter (\<lambda>l. hd (split 32 l) = s) (drop n ls)"
proof (induction ls s n rule: lines_after.induct)
  case (1 ls s n)
  show ?case
  proof (cases "n < length ls")
    case True
    then have d: "drop n ls = ls ! n # drop (n + 1) ls"
      by (simp add: Cons_nth_drop_Suc)
    show ?thesis using True "1.IH"
      by (subst lines_after.simps) (simp add: d)
  next
    case False
    then show ?thesis by (subst lines_after.simps) simp
  qed
qed

lemma key_eq_surt_key: "hd (split 32 l) = surt_key l"
  by (simp add: hd_split surt_key_eq)

lemma trailing_blank:
  "list_all (\<lambda>l. l = []) trailing \<Longrightarrow> trailing = [] \<or> strip (hd trailing) = []"
  by (cases trailing) (auto simp: strip_def)

lemma binary_search_index:
  assumes wf: "index_lines meta recs trailing"
    and srt: "sorted (map (search_string ou) recs)"
    and p: "p = bisect_left (map (search_string ou) recs) needle 0 (length recs)"
  shows "binary_search (meta @ recs @ trailing) needle ri ou =
           (if needle \<in> search_string ou ` set recs
            then Inr (Some (if ri then Index (p + length meta) else Line (recs ! p)))
            else Inr None)"
    and "needle \<in> search_string ou ` set recs \<Longrightarrow>
           p < length recs \<and> search_string ou (recs ! p) = needle \<and>
           (\<forall>i<p. search_string ou (recs ! i) < needle)"
proof -
  let ?d = "map (search_string ou) recs"
  have obj: "objectify_cdxj_data (meta @ recs @ trailing) ou =
             Inr \<lparr>metadata = meta, data = ?d\<rparr>"
    using wf by (intro objectify_index trailing_blank) (auto simp: index_lines_def)
  have p': "p = bisect_left ?d needle 0 (length ?d)" using p by simp
  note bl = bisect_left_first [OF srt p']
  have iff: "(p \<noteq> length recs \<and> ?d ! p = needle) \<longleftrightarrow> needle \<in> search_string ou ` set recs"
    using bl(4) by simp
  show hit: "needle \<in> search_string ou ` set recs \<Longrightarrow>
           p < length recs \<and> search_string ou (recs ! p) = needle \<and>
           (\<forall>i<p. search_string ou (recs ! i) < needle)"
  proof -
    assume "needle \<in> search_string ou ` set recs"
    with iff have a: "p \<noteq> length recs" "?d ! p = needle" by auto
    with bl(1) have lt: "p < length recs" by simp
    moreover have "\<forall>i<p. search_string ou (recs ! i) < needle"
      using bl(2) lt by auto
    ultimately show ?thesis using a by simp
  qed
  show "binary_search (meta @ recs @ trailing) needle ri ou =
           (if needle \<in> search_string ou ` set recs
            then Inr (Some (if ri then Index (p + length meta) else Line (recs ! p)))
            else Inr None)"
  proof (cases "needle \<in> search_string ou ` set recs")
    case True
    from hit [OF True] have lt: "p < length recs" by simp
    have "(meta @ recs @ trailing) ! (p + length meta) = recs ! p"
      using lt by (simp add: nth_append)
    then show ?thesis
      using True iff lt by (simp add: binary_search_def obj p [symmetric] Let_def)
  next
    case False
    then show ?thesis
      using iff by (auto simp: binary_search_def obj p [symmetric] Let_def)
  qed
qed

text \<open>
  Claim C1. On an index whose record lines are sorted by their search string (the key,
  or the key and the timestamp), \<open>binary_search\<close> returns a record exactly when the
  search string of a record line equals the needle: it then returns such a line, the
  first one, and returns \<open>None\<close> when no line has the needle as its search string. It
  never returns a neighbouring record.
\<close>

theorem binary_search_exact_match:
  assumes "index_lines meta recs trailing"
    and "sorted (map (search_string only_uri) recs)"
  shows "(needle \<in> search_string only_uri ` set recs \<longrightarrow>
            (\<exists>p<length recs. search_string only_uri (recs ! p) = needle \<and>
               (\<forall>i<p. search_string only_uri (recs ! i) < needle) \<and>
               binary_search (meta @ recs @ trailing) needle False only_uri
                 = Inr (Some (Line (recs ! p))))) \<and>
         (needle \<notin> search_string only_uri ` set recs \<longrightarrow>
            binary_search (meta @ recs @ trailing) needle False only_uri = Inr None)"
  using binary_search_index(1) [OF assms refl, of needle False]
    binary_search_index(2) [OF assms refl, of needle] by auto

lemma append_le_append_iff: "(xs @ a \<le> xs @ b) \<longleftrightarrow> (a \<le> (b :: 'a::linorder list))"
  by (induction xs) auto

lemma sorted_same_key_timestamps:
  assumes "sorted (map (search_string False) recs)"
  shows "sorted (map timestamp (filter (\<lambda>l. surt_key l = s) recs))"
proof -
  have "sorted (map (search_string False) (filter (\<lambda>l. surt_key l = s) recs))"
    using assms by (simp add: sorted_filter)
  moreover have "map (search_string False) (filter (\<lambda>l. surt_key l = s) recs) =
        map (\<lambda>l. (s @ [32]) @ timestamp l) (filter (\<lambda>l. surt_key l = s) recs)"
    by (auto simp: search_string_def)
  ultimately have "sorted (map (\<lambda>l. (s @ [32]) @ timestamp l) (filter (\<lambda>l. surt_key l = s) recs))"
    by simp
  then show ?thesis
    unfolding sorted_map by (simp only: append_le_append_iff)
qed

lemma metadata_key_differs:
  assumes "metadata_line m" "record_line r"
  shows "surt_key m \<noteq> surt_key r"
proof -
  from assms(1) obtain m' where m: "m = 33 # m'" by (cases m) (auto simp: metadata_line_def)
  from assms(2) have "r \<noteq> []" "hd r \<noteq> 33" by (auto simp: record_line_def strip_def)
  then obtain c r' where r: "r = c # r'" "c \<noteq> 33" by (cases r) auto
  show ?thesis unfolding surt_key_eq m r using r(2) by auto
qed

lemma record_key_nonempty: "record_line r \<Longrightarrow> surt_key r \<noteq> []"
  unfolding surt_key_eq by (cases r) (auto simp: record_line_def strip_def)

lemma scan_of_pivot:
  assumes wf: "index_lines meta recs trailing"
    and srt: "sorted (map surt_key recs)"
    and p: "p < length recs" "surt_key (recs ! p) = s" "\<forall>i<p. surt_key (recs ! i) < s"
  shows "(meta @ recs @ trailing) ! (p + length meta)
           # lines_before (meta @ recs @ trailing) s (p + length meta)
           @ lines_after (meta @ recs @ trailing) s (p + length meta + 1)
         = filter (\<lambda>l. surt_key l = s) recs"
proof -
  let ?L = "meta @ recs @ trailing"
  let ?P = "\<lambda>l. surt_key l = s"
  have rl: "record_line (recs ! p)" using wf p(1) by (simp add: index_lines_def list_all_length)
  have pivot: "?L ! (p + length meta) = recs ! p" using p(1) by (simp add: nth_append)
  have tk: "take (p + length meta) ?L = meta @ take p recs" using p(1) by simp
  have dr: "drop (p + length meta + 1) ?L = drop (Suc p) recs @ trailing" using p(1) by simp
  have m: "filter ?P meta = []"
  proof -
    have "\<forall>x\<in>set meta. surt_key x \<noteq> s"
      using wf metadata_key_differs [OF _ rl] p(2) by (auto simp: index_lines_def list_all_iff)
    then show ?thesis by (simp add: filter_empty_conv)
  qed
  have b: "filter ?P (take p recs) = []"
  proof -
    have "\<forall>x\<in>set (take p recs). surt_key x \<noteq> s"
    proof
      fix x assume "x \<in> set (take p recs)"
      then obtain i where "i < p" "x = recs ! i"
        using p(1) by (auto simp: in_set_conv_nth)
      then show "surt_key x \<noteq> s" using p(3) by auto
    qed
    then show ?thesis by (simp add: filter_empty_conv)
  qed
  have t: "filter ?P trailing = []"
  proof -
    have "s \<noteq> []" using record_key_nonempty [OF rl] p(2) by simp
    moreover have "\<forall>x\<in>set trailing. x = []" using wf by (simp add: index_lines_def list_all_iff)
    ultimately have "\<forall>x\<in>set trailing. surt_key x \<noteq> s" by (auto simp: surt_key_eq)
    then show ?thesis by (simp add: filter_empty_conv)
  qed
  have "filter ?P (rev (meta @ take p recs)) = rev (filter ?P (meta @ take p recs))"
    by (rule rev_filter [symmetric])
  then have rv: "filter ?P (rev (meta @ take p recs)) = []" by (simp add: m b)
  have "p + length meta \<le> length ?L" using p(1) by simp
  then have before: "lines_before ?L s (p + length meta) = []"
    by (simp only: lines_before_filter key_eq_surt_key tk rv)
  have after: "lines_after ?L s (p + length meta + 1) = filter ?P (drop (Suc p) recs)"
    by (simp only: lines_after_filter key_eq_surt_key dr) (simp add: t)
  have "filter ?P recs = filter ?P (take p recs @ recs ! p # drop (Suc p) recs)"
    using p(1) by (simp add: id_take_nth_drop [symmetric])
  also have "\<dots> = recs ! p # filter ?P (drop (Suc p) recs)"
    using b p(2) by simp
  finally show ?thesis using pivot before after by simp
qed

text \<open>
  Claim C2. On a sorted index with any number of leading metadata lines,
  \<open>get_cdxj_lines_with_urir\<close> returns exactly the record lines whose key is the
  queried SURT key, in the order of the index, which is the ascending order of their
  timestamps. When the key is in the index, the index the binary search returns is
  the position of the first record of that key among the record lines plus the number
  of metadata lines, and the line at that index has the queried key.
\<close>

theorem lines_with_urir_exact:
  assumes "surt E urir = Inr s"
    and "index_reads E index_path content"
    and "split 10 content = meta @ recs @ trailing"
    and "index_lines meta recs trailing"
    and "sorted (map surt_key recs)"
    and "sorted (map (search_string False) recs)"
  shows "get_cdxj_lines_with_urir E urir index_path = Inr (filter (\<lambda>l. surt_key l = s) recs) \<and>
         sorted (map timestamp (filter (\<lambda>l. surt_key l = s) recs)) \<and>
         (s \<in> surt_key ` set recs \<longrightarrow>
            (\<exists>p<length recs.
               binary_search (split 10 content) s True True = Inr (Some (Index (p + length meta))) \<and>
               split 10 content ! (p + length meta) = recs ! p \<and>
               surt_key (recs ! p) = s \<and> (\<forall>i<p. surt_key (recs ! i) \<noteq> s)))"
proof -
  let ?L = "meta @ recs @ trailing"
  define ip1 where "ip1 = (case index_path of
                           None \<Rightarrow> get_ipwb_replay_index_path E
                         | Some p \<Rightarrow> if p = [] then get_ipwb_replay_index_path E else p)"
  define ip where "ip = get_index_file_full_path E ip1"
  define p where "p = bisect_left (map (search_string True) recs) s 0 (length recs)"
  have r1: "get_web_archive_index E ip = Inr content"
    and r2: "get_web_archive_index E (get_index_file_full_path E ip) = Inr content"
    using assms(2) by (simp_all add: index_reads_def Let_def ip_def ip1_def)
  have key: "search_string True = surt_key" by (auto simp: search_string_def)
  have srt: "sorted (map (search_string True) recs)" using assms(5) by (simp add: key)
  note bs = binary_search_index(1) [OF assms(4) srt p_def, where ri = True, unfolded key]
    binary_search_index(2) [OF assms(4) srt p_def, unfolded key]
  have lb: "get_cdxj_line_binarySearch E s ip True True = binary_search ?L s True True"
    by (simp add: get_cdxj_line_binarySearch_def r2 assms(3))
  have unfold: "get_cdxj_lines_with_urir E urir index_path =
      (case binary_search ?L s True True of
         Inl e \<Rightarrow> Inl e
       | Inr None \<Rightarrow> Inr []
       | Inr (Some (Line l)) \<Rightarrow> Inl TypeError
       | Inr (Some (Index i)) \<Rightarrow>
           if i < length ?L then
             Inr (?L ! i # lines_before ?L s i @ lines_after ?L s (i + 1))
           else Inl IndexError)"
    unfolding get_cdxj_lines_with_urir_def Let_def ip1_def [symmetric]
    unfolding ip_def [symmetric]
    by (simp add: assms(1) lb r1 assms(3) split: sum.splits option.splits hit.splits)
  have ts: "sorted (map timestamp (filter (\<lambda>l. surt_key l = s) recs))"
    by (rule sorted_same_key_timestamps [OF assms(6)])
  show ?thesis
  proof (cases "s \<in> surt_key ` set recs")
    case True
    from bs(2) [OF True] have p: "p < length recs" "surt_key (recs ! p) = s"
      "\<forall>i<p. surt_key (recs ! i) < s" by auto
    have res: "binary_search ?L s True True = Inr (Some (Index (p + length meta)))"
      using bs(1) True by simp
    have "get_cdxj_lines_with_urir E urir index_path = Inr (filter (\<lambda>l. surt_key l = s) recs)"
      using scan_of_pivot [OF assms(4,5) p] p(1) by (simp add: unfold res)
    moreover have "?L ! (p + length meta) = recs ! p" using p(1) by (simp add: nth_append)
    moreover have "\<forall>i<p. surt_key (recs ! i) \<noteq> s" using p(3) by auto
    ultimately show ?thesis using ts p res by (auto simp: assms(3))
  next
    case False
    have "binary_search ?L s True True = Inr None" using bs(1) False by simp
    moreover have "filter (\<lambda>l. surt_key l = s) recs = []"
      using False by (auto simp: filter_empty_conv)
    ultimately show ?thesis using ts False by (simp add: unfold)
  qed
qed

theorem binary_search_exact_match_witness:
  "(\<exists>p<length example_records.
      binary_search (example_meta @ example_records @ [[]]) (lit ''com,example)/ 20200101000000'')
        False False = Inr (Some (Line (example_records ! p)))) \<and>
   binary_search (example_meta @ example_records @ [[]]) (lit ''com,example)/ 20190601000000'')
        False False = Inr None"
proof -
  have wf: "index_lines example_meta example_records [[]]" by code_simp
  have srt: "sorted (map (search_string False) example_records)" by code_simp
  have hit: "lit ''com,example)/ 20200101000000'' \<in> search_string False ` set example_records"
    by code_simp
  have miss: "lit ''com,example)/ 20190601000000'' \<notin> search_string False ` set example_records"
    by code_simp
  from binary_search_exact_match [OF wf srt, of "lit ''com,example)/ 20200101000000''"] hit
    binary_search_exact_match [OF wf srt, of "lit ''com,example)/ 20190601000000''"] miss
  show ?thesis by blast
qed

theorem lines_with_urir_exact_witness:
  "get_cdxj_lines_with_urir example_env (lit ''example.com/'') None =
     Inr (filter (\<lambda>l. surt_key l = lit ''com,example)/'') example_records)"
proof -
  have h1: "surt example_env (lit ''example.com/'') = Inr (lit ''com,example)/'')"
    by (simp add: example_env_def)
  have h2: "index_reads example_env None example_index" by code_simp
  have h3: "split 10 example_index = example_meta @ example_records @ [[]]" by code_simp
  have h4: "index_lines example_meta example_records [[]]" by code_simp
  have h5: "sorted (map surt_key example_records)" by code_simp
  have h6: "sorted (map (search_string False) example_records)" by code_simp
  from lines_with_urir_exact [OF h1 h2 h3 h4 h5 h6] show ?thesis by (rule conjunct1)
qed

section \<open>Fields of a line\<close>






section \<open>Replay: status, synthesized headers, the decryption key, chunked bodies\<close>

text \<open>
  Claim C6 (the code fails it). A record whose metadata has no \<open>status_code\<close> gets the
  integer \<open>200\<close> as its status, and \<open>status[0]\<close> on an integer raises \<open>TypeError\<close>
  after the response has been built: with both blobs fetched, \<open>show_uri\<close> ends in that
  exception instead of returning the response.
\<close>

theorem absent_status_code_raises:
  "show_uri example_env_no_status (lit ''example.com/'') (Some (lit ''20190101000000''))
     = Some (Raises TypeError)"
  by code_simp

lemma default_status_never_replays:
  assumes "contains (lit ''status_code'') json_object = Inr False"
  shows "\<exists>e. replay_response E cdxj_line json_object datetime payload header = Inl e"
proof -
  have s: "stored_status json_object = Inr (JInt 200)"
    using assms by (simp add: stored_status_def)
  have r: "rewrite_location E (JInt 200) resp = Inl TypeError" for resp
    by (simp add: rewrite_location_def first_is_3_def bind_def)
  show ?thesis
    unfolding replay_response_def s
    by (auto simp: bind_def r split: sum.splits)
qed

text \<open>
  Claim C7 (the code fails it). When the payload was fetched and the header fetch ends
  in \<open>HashNotFoundError\<close>, the handler sets the header to the empty \<open>str\<close>; the
  reconstruction then calls \<open>decode\<close> on it and raises \<open>AttributeError\<close>, and the test
  \<open>header is None\<close> that guards the marker header is false for it. With a timeout of the
  header fetch, which is how a hash that does not resolve shows while the alarm is
  commented out, the view returns the page \<open>not found in IPFS\<close>; with any other
  exception an error pair. No response carries the marker header.
\<close>

theorem synthesized_header_raises:
  "fetch_failed E path HashNotFoundError (Some payload) = Inr (Inr (payload, Some (Str []))) \<and>
   replay_response E cdxj_line json_object datetime payload (Some (Str [])) = Inl AttributeError \<and>
   show_uri (example_env_no_header HashNotFoundError) (lit ''example.com/'')
      (Some (lit ''20190101000000'')) = Some (Raises AttributeError) \<and>
   show_uri (example_env_no_header OtherException) (lit ''example.com/'')
      (Some (lit ''20190101000000'')) =
      Some (Returns (Tuple (lit ''An unknown exception occurred'') 500)) \<and>
   show_uri (example_env_no_header IpfsTimeoutError) (lit ''example.com/'')
      (Some (lit ''20190101000000'')) =
      Some (Returns (Resp
        \<lparr>resp_status = JInt 200,
         resp_headers = [(lit ''Content-Type'', lit ''text/html; charset=utf-8'')],
         resp_data = blit ''example.com/ not found in IPFS :( <a href=\"http://localhost:2016\">Go home</a>''\<rparr>))"
proof (intro conjI)
  show "show_uri (example_env_no_header IpfsTimeoutError) (lit ''example.com/'')
      (Some (lit ''20190101000000'')) =
      Some (Returns (Resp
        \<lparr>resp_status = JInt 200,
         resp_headers = [(lit ''Content-Type'', lit ''text/html; charset=utf-8'')],
         resp_data = blit ''example.com/ not found in IPFS :( <a href=\"http://localhost:2016\">Go home</a>''\<rparr>))"
    by code_simp
  show "fetch_failed E path HashNotFoundError (Some payload) = Inr (Inr (payload, Some (Str [])))"
    by (simp add: fetch_failed_def)
  show "replay_response E cdxj_line json_object datetime payload (Some (Str [])) = Inl AttributeError"
    by (simp add: replay_response_def bind_def)
  show "show_uri (example_env_no_header HashNotFoundError) (lit ''example.com/'')
      (Some (lit ''20190101000000'')) = Some (Raises AttributeError)"
    by code_simp
  show "show_uri (example_env_no_header OtherException) (lit ''example.com/'')
      (Some (lit ''20190101000000'')) =
      Some (Returns (Tuple (lit ''An unknown exception occurred'') 500))"
    by code_simp
qed

text \<open>
  Claim C8 (the code fails it). For every record whose metadata has an
  \<open>encryption_method\<close> and no \<open>encryption_key\<close>, the reconstruction reaches the call
  of \<open>raw_input\<close>, which is not a name of Python 3: the request ends in \<open>NameError\<close>,
  the error of a misspelt name, whatever the record and whatever was fetched. It does
  not wait for input, and there is no \<open>MissingDecryptionKey\<close> error in the module; the
  prompt the code builds is never shown.
\<close>

theorem missing_key_raises_name_error:
  assumes "contains (lit ''encryption_method'') json_object = Inr True"
    and "contains (lit ''encryption_key'') json_object = Inr False"
  shows "key_loop E json_object = Some (Raises NameError) \<and>
         serve_blobs E cdxj_line json_object datetime payload header = Some (Raises NameError)"
proof -
  have k: "key_loop E json_object = Some (Raises NameError)"
    using assms(2) by (subst key_loop.simps) (simp add: raw_input_def)
  then show ?thesis
    using assms(1) by (simp add: serve_blobs_def)
qed

theorem missing_key_raises_name_error_witness:
  "key_loop example_env_encrypted
     (JDict [(lit ''locator'', JStr (lit ''urn:ipfs/QmH1/QmP1'')),
             (lit ''encryption_method'', JStr (lit ''aes''))])
   = Some (Raises NameError) \<and>
   serve_blobs example_env_encrypted (example_records ! 0)
     (JDict [(lit ''locator'', JStr (lit ''urn:ipfs/QmH1/QmP1'')),
             (lit ''encryption_method'', JStr (lit ''aes''))])
     (lit ''20190101000000'') example_payload (Some (Bytes example_header))
   = Some (Raises NameError)"
proof -
  let ?j = "JDict [(lit ''locator'', JStr (lit ''urn:ipfs/QmH1/QmP1'')),
             (lit ''encryption_method'', JStr (lit ''aes''))]"
  have h1: "contains (lit ''encryption_method'') ?j = Inr True" by code_simp
  have h2: "contains (lit ''encryption_key'') ?j = Inr False" by code_simp
  show ?thesis
    by (rule missing_key_raises_name_error [OF h1 h2])
qed

lemma missing_key_request_ends:
  "show_uri example_env_encrypted (lit ''example.com/'') (Some (lit ''20190101000000''))
     = Some (Raises NameError)"
  by code_simp

text \<open>
  Claim C9 (the code fails it). The decoder turns the payload into a \<open>str\<close> before it
  counts, so a chunk size counts characters where the encoder counted bytes. The body
  of the two bytes \<open>C3 A9\<close>, sent as one chunk of size 2, decodes to the two characters
  \<open>U+00E9\<close> and carriage return, whose encoding has three bytes; a body with the byte
  \<open>FF\<close> makes the decoder raise.
\<close>

theorem chunked_round_trip_fails_beyond_ascii:
  "extract_response_from_chunked_data ascii_ucd
     (Bytes (blit ''2'' @ [13, 10] @ [0xC3, 0xA9] @ [13, 10] @ blit ''0'' @ [13, 10, 13, 10]))
     = Inr [0xE9, 13] \<and>
   encode [0xE9, 13] = Inr [0xC3, 0xA9, 13] \<and>
   extract_response_from_chunked_data ascii_ucd
     (Bytes (blit ''1'' @ [13, 10] @ [0xFF] @ [13, 10] @ blit ''0'' @ [13, 10, 13, 10]))
     = Inl UnicodeDecodeError"
  by code_simp






section \<open>The memento endpoint: redirect or serve\<close>




















end
